theory Spec2Isabelle
  imports Main "HOL-Library.AList"
begin

section \<open>The script object of a data migration job\<close>

text \<open>
  A shallow embedding of \<^verbatim>\<open>src/modules/models/script_models/scriptObject.ts\<close>: the class
  \<^verbatim>\<open>ScriptObject\<close>, its \<^verbatim>\<open>setup\<close> and \<^verbatim>\<open>describeAsync\<close> methods and the private helpers
  \<^verbatim>\<open>_parseQuery\<close>, \<^verbatim>\<open>_addOrRemmoveFields\<close> and \<^verbatim>\<open>_validateFields\<close>. Methods mutate \<^verbatim>\<open>this\<close>;
  here they take the object and return the updated one. An exception is the left summand
  of the result.
\<close>

subsection \<open>Strings\<close>

text \<open>
  \<^verbatim>\<open>String.prototype.toLowerCase\<close> on the ASCII letters (field names and keywords of a
  query are ASCII identifiers; other bytes are left as they are).
\<close>

definition toLowerCase :: "string \<Rightarrow> string" where
  "toLowerCase s =
     map (\<lambda>c. case map_of (zip ''ABCDEFGHIJKLMNOPQRSTUVWXYZ'' ''abcdefghijklmnopqrstuvwxyz'') c of
                 Some l \<Rightarrow> l
               | None \<Rightarrow> c) s"

text \<open>\<^verbatim>\<open>String.prototype.split\<close> with a one-character separator: never an empty array.\<close>

fun split :: "char \<Rightarrow> string \<Rightarrow> string list" where
  "split sep [] = [[]]"
| "split sep (c # cs) =
     (if c = sep then [] # split sep cs
      else (case split sep cs of
              [] \<Rightarrow> [[c]]
            | p # ps \<Rightarrow> (c # p) # ps))"

subsection \<open>Messages, errors and the logger\<close>

datatype RESOURCES =
    MalformedQuery
  | MalformedDeleteQuery
  | gettingMetadataForSObject
  | source
  | target
  | objectSourceDoesNotExist
  | objectTargetDoesNotExist
  | missingFieldsToProcess
  | noExternalKey
  | fieldSourceDoesNtoExist
  | fieldTargetDoesNtoExist

text \<open>
  An argument of a message is a text or a nested \<^verbatim>\<open>getResourceString(key)\<close>. The result of
  \<^verbatim>\<open>getResourceString(key, ...args)\<close> is kept as the key with its arguments.
\<close>

datatype message_arg = Text string | Resource RESOURCES

type_synonym message = "RESOURCES \<times> message_arg list"

text \<open>
  The two error classes of \<^verbatim>\<open>common_models/errors\<close> that the file throws, and
  \<open>OtherError\<close> for every other exception: a failure of the query parser or of the
  metadata fetch, or a \<^verbatim>\<open>TypeError\<close> on reading a property of \<^verbatim>\<open>undefined\<close>.
\<close>

datatype error =
    CommandInitializationError message
  | OrgMetadataError message
  | OtherError string

definition TypeError :: error where
  "TypeError = OtherError ''TypeError''"

datatype log_level = Info | Warn

type_synonym log_entry = "log_level \<times> message"

subsection \<open>Queries of the SOQL parser\<close>

text \<open>
  The file reads one property of a field of a parsed query, \<^verbatim>\<open>field\<close> (every element is
  cast to \<^verbatim>\<open>SOQLField\<close>), and builds fields with \<^verbatim>\<open>getComposedField(name)\<close>. A query is
  its object, its fields, its condition and its limit.
\<close>

datatype SOQLField = SOQLField (field: string)

datatype Query = Query (sObject: string) (fields: "SOQLField list")
  (whereClause: "string option") (limit: "nat option")

definition getComposedField :: "string \<Rightarrow> SOQLField" where
  "getComposedField n = SOQLField n"

definition set_fields :: "SOQLField list \<Rightarrow> Query \<Rightarrow> Query" where
  "set_fields fs q = Query (sObject q) fs (whereClause q) (limit q)"

definition set_where :: "string option \<Rightarrow> Query \<Rightarrow> Query" where
  "set_where w q = Query (sObject q) (Query.fields q) w (limit q)"

subsection \<open>Field and object descriptions\<close>

text \<open>
  Modelled from the spec: \<^verbatim>\<open>sfieldDescribe.ts\<close> and \<^verbatim>\<open>SObjectDescribe\<close> are not among the
  sources. A field description has a name, a lookup flag and the name of the referenced
  object, which \<^verbatim>\<open>_addOrRemmoveFields\<close> reads by name; \<open>properties\<close> is the indexed read
  \<^verbatim>\<open>fieldDescribe[prop]\<close> of the flags that a multiselect keyword names (the pattern maps
  a property to a boolean), \<open>None\<close> where the property is \<^verbatim>\<open>undefined\<close>. The description of
  an object is its \<^verbatim>\<open>fieldsMap\<close>, a \<^verbatim>\<open>Map\<close> from field name to description, in insertion
  order.
\<close>

record SFieldDescribe =
  name :: string
  lookup :: bool
  referencedObjectType :: string
  properties :: "string \<Rightarrow> bool option"

record SObjectDescribe =
  fieldsMap :: "(string \<times> SFieldDescribe) list"

definition fieldsMap_values :: "SObjectDescribe \<Rightarrow> SFieldDescribe list" where
  "fieldsMap_values describe = map snd (fieldsMap describe)"

definition fieldsMap_has :: "SObjectDescribe \<Rightarrow> string \<Rightarrow> bool" where
  "fieldsMap_has describe x = (x \<in> set (map fst (fieldsMap describe)))"

subsection \<open>Operations\<close>

text \<open>
  Modelled from the spec: the enum \<^verbatim>\<open>OPERATION\<close> of \<^verbatim>\<open>statics.ts\<close> is not among the
  sources; its members are those the spec lists, numbered in that order.
\<close>

datatype OPERATION = Insert | Update | Upsert | Readonly | Delete

text \<open>
  The field \<^verbatim>\<open>operation\<close> holds a member of the enum, or (read from the script file) a
  string; \<open>OpUndefined\<close> is \<^verbatim>\<open>undefined\<close>.
\<close>

datatype op_value = OpMember OPERATION | OpString string | OpUndefined

text \<open>
  \<^verbatim>\<open>OPERATION[key]\<close>: a member's name gives the member, a member's number gives its name
  (the reverse mapping of a numeric enum), anything else \<^verbatim>\<open>undefined\<close>.
\<close>

definition OPERATION_index :: "string \<Rightarrow> op_value" where
  "OPERATION_index key =
     (if key = ''Insert'' then OpMember Insert
      else if key = ''Update'' then OpMember Update
      else if key = ''Upsert'' then OpMember Upsert
      else if key = ''Readonly'' then OpMember Readonly
      else if key = ''Delete'' then OpMember Delete
      else if key = ''0'' then OpString ''Insert''
      else if key = ''1'' then OpString ''Update''
      else if key = ''2'' then OpString ''Upsert''
      else if key = ''3'' then OpString ''Readonly''
      else if key = ''4'' then OpString ''Delete''
      else OpUndefined)"

definition OPERATION_name :: "OPERATION \<Rightarrow> string" where
  "OPERATION_name m =
     (case m of Insert \<Rightarrow> ''Insert'' | Update \<Rightarrow> ''Update'' | Upsert \<Rightarrow> ''Upsert''
      | Readonly \<Rightarrow> ''Readonly'' | Delete \<Rightarrow> ''Delete'')"

definition getOperation :: "op_value \<Rightarrow> op_value" where
  "getOperation operation =
     (case operation of
        OpString s \<Rightarrow> OPERATION_index s
      | _ \<Rightarrow> operation)"

text \<open>\<^verbatim>\<open>OPERATION[undefined].toString()\<close> is a \<^verbatim>\<open>TypeError\<close>.\<close>

definition getStrOperation :: "op_value \<Rightarrow> error + string" where
  "getStrOperation operation =
     (case operation of
        OpString s \<Rightarrow> Inr s
      | OpMember m \<Rightarrow> Inr (OPERATION_name m)
      | OpUndefined \<Rightarrow> Inl TypeError)"

subsection \<open>The script and the script object\<close>

datatype DATA_MEDIA_TYPE = Org | File

text \<open>
  Modelled from the spec: the class \<^verbatim>\<open>ScriptOrg\<close> is not among the sources. The source
  org and the target org of a script are two orgs, each handed to a client of its own
  (\<^verbatim>\<open>new Sfdx(this.script.sourceOrg)\<close>, \<^verbatim>\<open>new Sfdx(this.script.targetOrg)\<close>): an org has a
  name, which tells one org from the other, and a medium.
\<close>

record ScriptOrg =
  name :: string
  media :: DATA_MEDIA_TYPE

text \<open>
  Of the script, the file reads the two orgs and the person account flag, writes to the
  logger and registers the object in \<^verbatim>\<open>objectsMap\<close> under its name (the keys are kept,
  in insertion order). A script object holds a reference to the script; the model keeps
  the script inside the object, and what the object writes through the reference is
  written there.
\<close>

record Script =
  logger :: "log_entry list"
  isPersonAccountEnabled :: bool
  sourceOrg :: ScriptOrg
  targetOrg :: ScriptOrg
  objectsMap :: "string list"

definition objectsMap_set :: "string \<Rightarrow> string list \<Rightarrow> string list" where
  "objectsMap_set key keys = (if key \<in> set keys then keys else keys @ [key])"

text \<open>
  The multiselect pattern is an object with boolean properties, here the list of its
  keys with their values, in insertion order.
\<close>

type_synonym pattern = "(string \<times> bool) list"

record ScriptObject =
  query :: string
  deleteQuery :: string
  operation :: op_value
  externalId :: string
  deleteOldData :: bool
  updateWithMockData :: bool
  mockCSVData :: bool
  targetRecordsFilter :: string
  excluded :: bool
  useCSVValuesMapping :: bool
  allRecords :: bool
  excludedFields :: "string list"
  script :: "Script option"
  name :: string
  sourceSObjectDescribe :: "SObjectDescribe option"
  targetSObjectDescribe :: "SObjectDescribe option"
  originalExternalId :: string
  parsedQuery :: "Query option"
  parsedDeleteQuery :: "Query option"
  isExtraObject :: bool
  processAllSource :: bool
  processAllTarget :: bool
  multiselectPattern :: "pattern option"

subsection \<open>Collaborators\<close>

text \<open>
  What the file imports and the sources do not hold: the parser and composer of
  \<^verbatim>\<open>soql-parser-js\<close>, the metadata fetch of \<^verbatim>\<open>Sfdx\<close>, three tables of \<^verbatim>\<open>CONSTANTS\<close> and
  the helpers of \<^verbatim>\<open>Common\<close> on complex field names, where clauses and maps. They are
  parameters of the model. The parser and the fetch may raise; the composer and the
  helpers return. \<open>filterMapByArray\<close> stands for the call made by \<^verbatim>\<open>fieldsInQueryMap\<close>,
  with its default descriptor and its flag.
\<close>

record collaborators =
  parseQuery :: "string \<Rightarrow> error + Query"
  composeQuery :: "Query \<Rightarrow> string"
  describeSObjectAsync :: "ScriptOrg \<Rightarrow> string \<Rightarrow> error + SObjectDescribe"
  isComplexOr__rField :: "string \<Rightarrow> bool"
  getComplexField :: "string \<Rightarrow> string"
  composeWhereClause ::
    "string option \<Rightarrow> string \<Rightarrow> string \<Rightarrow> string \<Rightarrow> string \<Rightarrow> string \<Rightarrow> string option"
  filterMapByArray ::
    "string list \<Rightarrow> (string \<times> SFieldDescribe) list \<Rightarrow> (string \<times> SFieldDescribe) list"
  MULTISELECT_SOQL_KEYWORDS :: "string list"
  SPECIAL_OBJECTS :: "string list"
  OBJECTS_NOT_TO_USE_IN_QUERY_MULTISELECT :: "string list"

text \<open>
  Modelled from the spec: \<^verbatim>\<open>Common.distinctArray\<close> is not among the sources. The list is
  deduplicated by the given property, the first occurrence of each value staying where
  it is.
\<close>

fun distinctArray :: "('a \<Rightarrow> string) \<Rightarrow> 'a list \<Rightarrow> 'a list" where
  "distinctArray prop [] = []"
| "distinctArray prop (x # xs) =
     x # distinctArray prop (filter (\<lambda>y. prop y \<noteq> prop x) xs)"

text \<open>
  Modelled from the spec: \<^verbatim>\<open>Common.removeBy\<close> is not among the sources. It removes from
  the list the (first) element whose property has the given value.
\<close>

fun removeBy :: "('a \<Rightarrow> string) \<Rightarrow> string \<Rightarrow> 'a list \<Rightarrow> 'a list" where
  "removeBy prop v [] = []"
| "removeBy prop v (y # ys) = (if prop y = v then ys else y # removeBy prop v ys)"

subsection \<open>Getters\<close>

definition fieldsInQuery :: "ScriptObject \<Rightarrow> string list" where
  "fieldsInQuery obj =
     (case parsedQuery obj of
        None \<Rightarrow> []
      | Some q \<Rightarrow> map field (Query.fields q))"

definition isDescribed :: "ScriptObject \<Rightarrow> bool" where
  "isDescribed obj = (sourceSObjectDescribe obj \<noteq> None)"

definition isInitialized :: "ScriptObject \<Rightarrow> bool" where
  "isInitialized obj = (script obj \<noteq> None)"

definition fieldsInQueryMap :: "collaborators \<Rightarrow> ScriptObject \<Rightarrow> (string \<times> SFieldDescribe) list" where
  "fieldsInQueryMap C obj =
     (case sourceSObjectDescribe obj of
        None \<Rightarrow> []
      | Some describe \<Rightarrow> filterMapByArray C (fieldsInQuery obj) (fieldsMap describe))"

definition isSpecialObject :: "collaborators \<Rightarrow> ScriptObject \<Rightarrow> bool" where
  "isSpecialObject C obj = (name obj \<in> set (SPECIAL_OBJECTS C))"

definition hasComplexExternalId :: "collaborators \<Rightarrow> ScriptObject \<Rightarrow> bool" where
  "hasComplexExternalId C obj = isComplexOr__rField C (externalId obj)"

definition complexExternalId :: "collaborators \<Rightarrow> ScriptObject \<Rightarrow> string" where
  "complexExternalId C obj = getComplexField C (externalId obj)"

definition complexOriginalExternalId :: "collaborators \<Rightarrow> ScriptObject \<Rightarrow> string" where
  "complexOriginalExternalId C obj = getComplexField C (originalExternalId obj)"

definition strOperation :: "ScriptObject \<Rightarrow> error + string" where
  "strOperation obj = getStrOperation (operation obj)"

subsection \<open>Parsing the query\<close>

text \<open>
  The inner function \<^verbatim>\<open>___set\<close>: the pattern is created when it is missing, the keyword
  is split at the underscores, and the property named by the first part is set to
  whether the second part is the text \<^verbatim>\<open>true\<close>.
\<close>

definition parseQuery_set :: "pattern option \<Rightarrow> string \<Rightarrow> pattern" where
  "parseQuery_set mp fieldName =
     (let pattern = (case mp of None \<Rightarrow> [] | Some p \<Rightarrow> p) in
      case split CHR ''_'' fieldName of
        [] \<Rightarrow> pattern
      | p0 # rest \<Rightarrow>
          AList.update p0 (case rest of [] \<Rightarrow> False | p1 # _ \<Rightarrow> p1 = ''true'') pattern)"

text \<open>
  The loop of \<^verbatim>\<open>_parseQuery\<close> over the parsed fields, with the pattern and the new field
  list as they stand.
\<close>

fun parseQuery_forEach ::
  "string list \<Rightarrow> SOQLField list \<Rightarrow> pattern option \<Rightarrow> SOQLField list
     \<Rightarrow> pattern option \<times> SOQLField list" where
  "parseQuery_forEach keywords [] mp out = (mp, out)"
| "parseQuery_forEach keywords (f # fs) mp out =
     (let fieldName = toLowerCase (field f) in
      if fieldName = ''all'' then
        parseQuery_forEach keywords fs (Some (parseQuery_set mp ''all_true'')) out
      else if fieldName \<in> set keywords then
        parseQuery_forEach keywords fs (Some (parseQuery_set mp fieldName)) out
      else if fieldName \<noteq> ''id'' then
        parseQuery_forEach keywords fs mp (out @ [getComposedField (field f)])
      else parseQuery_forEach keywords fs mp out)"

definition ScriptObject_parseQuery ::
  "collaborators \<Rightarrow> ScriptObject \<Rightarrow> string \<Rightarrow> error + (ScriptObject \<times> Query)" where
  "ScriptObject_parseQuery C obj q =
     (case parseQuery C q of
        Inl ex \<Rightarrow> Inl ex
      | Inr parsed \<Rightarrow>
          (case parseQuery_forEach (MULTISELECT_SOQL_KEYWORDS C) (Query.fields parsed)
                  (multiselectPattern obj) [getComposedField ''Id''] of
             (mp, fs) \<Rightarrow>
               let parsed' = set_fields fs parsed in
               Inr (obj\<lparr>multiselectPattern := mp, query := composeQuery C parsed'\<rparr>, parsed')))"

subsection \<open>Setup\<close>

definition push_field :: "SOQLField \<Rightarrow> Query \<Rightarrow> Query" where
  "push_field f q = set_fields (Query.fields q @ [f]) q"

text \<open>
  The field list that \<^verbatim>\<open>setup\<close> builds from the parsed query (lines 250 to 271): on
  \<^verbatim>\<open>Delete\<close> the list becomes the record id alone; the record id is added when it is
  missing; the external id (in its complex form when it is complex), the complex form
  of the original external id and, for person accounts, \<^verbatim>\<open>IsPersonAccount\<close> are added;
  then each field is kept once. \<open>this\<close> is the object as it stands after
  \<^verbatim>\<open>_parseQuery\<close>: its name is still the one it had before \<^verbatim>\<open>setup\<close>.
\<close>

definition setup_fields :: "collaborators \<Rightarrow> Script \<Rightarrow> ScriptObject \<Rightarrow> Query \<Rightarrow> Query" where
  "setup_fields C scr this parsed =
     (let q1 = (if operation this = OpMember Delete
                then set_fields [getComposedField ''Id''] parsed else parsed);
          q2 = (if \<not> list_ex (\<lambda>x. x = ''Id'') (map field (Query.fields q1))
                then push_field (getComposedField ''Id'') q1 else q1);
          q3 = (if hasComplexExternalId C this
                then push_field (getComposedField (complexExternalId C this)) q2
                else push_field (getComposedField (externalId this)) q2);
          q4 = push_field (getComposedField (complexOriginalExternalId C this)) q3;
          q5 = (if isPersonAccountEnabled scr \<and> (name this = ''Account'' \<or> name this = ''Contact'')
                then push_field (getComposedField ''IsPersonAccount'') q4 else q4)
      in set_fields (distinctArray field (Query.fields q5)) q5)"

text \<open>
  The delete query (lines 280 to 295): parsed from \<^verbatim>\<open>deleteQuery\<close> when that is not empty
  and from the composed query otherwise, its field list replaced by the record id.
\<close>

definition setup_deleteQuery :: "collaborators \<Rightarrow> Script \<Rightarrow> ScriptObject \<Rightarrow> error + ScriptObject" where
  "setup_deleteQuery C scr this =
     (if deleteOldData this then
        (case parseQuery C (if deleteQuery this \<noteq> [] then deleteQuery this else query this) of
           Inl ex \<Rightarrow>
             Inl (CommandInitializationError
                    (MalformedDeleteQuery, [Text (name this), Text (deleteQuery this)]))
         | Inr parsed \<Rightarrow>
             let d1 = set_fields [getComposedField ''Id''] parsed;
                 d2 = (if isPersonAccountEnabled scr \<and> name this = ''Contact''
                       then set_where (composeWhereClause C (whereClause d1)
                                         ''IsPersonAccount'' ''false'' ''='' ''BOOLEAN'' ''AND'') d1
                       else d1)
             in Inr (this\<lparr>parsedDeleteQuery := Some d2, deleteQuery := composeQuery C d2\<rparr>))
      else Inr this)"

text \<open>
  The first statements of \<^verbatim>\<open>setup\<close> (lines 232 to 242): the script is kept, the external
  id is remembered, the operation is normalized, and on \<^verbatim>\<open>Insert\<close> the external id becomes
  the record id.
\<close>

definition setup_init :: "Script \<Rightarrow> ScriptObject \<Rightarrow> ScriptObject" where
  "setup_init scr this =
     (let this1 = this\<lparr>script := Some scr, originalExternalId := externalId this\<rparr>;
          this2 = this1\<lparr>operation := getOperation (operation this1)\<rparr>
      in if operation this2 = OpMember Insert then this2\<lparr>externalId := ''Id''\<rparr> else this2)"

text \<open>
  What \<^verbatim>\<open>setup\<close> writes to the object once the field list is built (lines 250 to 277).
\<close>

definition setup_update :: "collaborators \<Rightarrow> Script \<Rightarrow> ScriptObject \<Rightarrow> Query \<Rightarrow> ScriptObject" where
  "setup_update C scr this parsed =
     (let q = setup_fields C scr this parsed in
      this\<lparr>deleteOldData := (operation this = OpMember Delete \<or> deleteOldData this),
           parsedQuery := Some q,
           query := composeQuery C q,
           name := sObject q,
           script := Some (scr\<lparr>objectsMap := objectsMap_set (sObject q) (objectsMap scr)\<rparr>)\<rparr>)"

text \<open>
  \<^verbatim>\<open>setup(script)\<close>. The exception caught around \<^verbatim>\<open>_parseQuery\<close> is an argument of the
  message of the error thrown in its place; the message keeps the name and the query.
\<close>

definition ScriptObject_setup :: "collaborators \<Rightarrow> Script \<Rightarrow> ScriptObject \<Rightarrow> error + ScriptObject" where
  "ScriptObject_setup C scr this =
     (if isInitialized this then Inr this
      else
        let this1 = setup_init scr this in
        case ScriptObject_parseQuery C this1 (query this1) of
          Inl ex \<Rightarrow>
            Inl (CommandInitializationError
                   (MalformedQuery, [Text (name this1), Text (query this1)]))
        | Inr (this2, parsed) \<Rightarrow> setup_deleteQuery C scr (setup_update C scr this2 parsed))"

subsection \<open>Adding the fields of the multiselect pattern, removing the excluded ones\<close>

text \<open>
  The inner function \<^verbatim>\<open>___compare\<close> on values that are a boolean or \<^verbatim>\<open>undefined\<close>
  (\<open>None\<close>); on these the loose equality of the language is equality.
\<close>

definition compare :: "bool option \<Rightarrow> bool option \<Rightarrow> bool \<Rightarrow> bool" where
  "compare fieldDescribeProperty patternProperty negative =
     (if \<not> negative then
        fieldDescribeProperty = patternProperty \<or> patternProperty = None
      else fieldDescribeProperty \<noteq> patternProperty \<and> fieldDescribeProperty \<noteq> None)"

text \<open>
  The condition under which the loop of \<^verbatim>\<open>_addOrRemmoveFields\<close> adds a described field.
  \<^verbatim>\<open>pattern.all != "undefined"\<close> compares with a text that no value of the pattern
  equals, so it is true.
\<close>

definition multiselect_adds ::
  "collaborators \<Rightarrow> pattern \<Rightarrow> string list \<Rightarrow> SFieldDescribe \<Rightarrow> bool" where
  "multiselect_adds C pattern fieldsInOriginalQuery fieldDescribe =
     ((compare (Some True) (Some (map_of pattern ''all'' = Some True)) False
        \<or> \<not> list_ex (\<lambda>prop. compare (properties fieldDescribe prop) (map_of pattern prop) True)
                    (map fst pattern))
      \<and> compare (Some (SFieldDescribe.name fieldDescribe \<notin> set fieldsInOriginalQuery)) (Some True) False
      \<and> \<not> (lookup fieldDescribe
            \<and> referencedObjectType fieldDescribe \<in> set (OBJECTS_NOT_TO_USE_IN_QUERY_MULTISELECT C)))"

text \<open>
  The names of the described fields that the loop adds to the query, in the order of the
  map: none when the object has no multiselect pattern.
\<close>

definition added_names :: "collaborators \<Rightarrow> SObjectDescribe \<Rightarrow> ScriptObject \<Rightarrow> string list" where
  "added_names C describe this =
     (case multiselectPattern this of
        None \<Rightarrow> []
      | Some pattern \<Rightarrow>
          map SFieldDescribe.name
            (filter (multiselect_adds C pattern (fieldsInQuery this)) (fieldsMap_values describe)))"

definition addOrRemmoveFields ::
  "collaborators \<Rightarrow> SObjectDescribe \<Rightarrow> ScriptObject \<Rightarrow> error + ScriptObject" where
  "addOrRemmoveFields C describe this =
     (case parsedQuery this of
        None \<Rightarrow> Inl TypeError
      | Some parsed \<Rightarrow>
          let q = set_fields
                    (filter (\<lambda>f. field f \<notin> set (excludedFields this))
                       (Query.fields parsed @ map getComposedField (added_names C describe this)))
                    parsed
          in Inr (this\<lparr>parsedQuery := Some q, query := composeQuery C q\<rparr>))"

subsection \<open>Validating the fields\<close>

text \<open>
  The loop of \<^verbatim>\<open>_validateFields\<close> runs over a copy of \<^verbatim>\<open>fieldsInQuery\<close>, an array of
  strings. Its test for the external id reads \<^verbatim>\<open>x.name\<close> of such a string, a property that
  a string does not have: the value is \<^verbatim>\<open>undefined\<close>.
\<close>

definition name_of_string :: "string \<Rightarrow> string option" where
  "name_of_string x = None"

definition warn :: "RESOURCES \<Rightarrow> message_arg list \<Rightarrow> Script \<Rightarrow> Script" where
  "warn key args scr = scr\<lparr>logger := logger scr @ [(Warn, (key, args))]\<rparr>"

definition infoNormal :: "RESOURCES \<Rightarrow> message_arg list \<Rightarrow> Script \<Rightarrow> Script" where
  "infoNormal key args scr = scr\<lparr>logger := logger scr @ [(Info, (key, args))]\<rparr>"

fun validateFields_forEach ::
  "collaborators \<Rightarrow> SObjectDescribe \<Rightarrow> bool \<Rightarrow> string list \<Rightarrow> ScriptObject
     \<Rightarrow> error + ScriptObject" where
  "validateFields_forEach C describe isSource [] this = Inr this"
| "validateFields_forEach C describe isSource (x # xs) this =
     (if \<not> isComplexOr__rField C x \<and> \<not> fieldsMap_has describe x then
        (case script this of
           None \<Rightarrow> Inl TypeError
         | Some scr \<Rightarrow>
             if name_of_string x = Some (externalId this) then
               (case strOperation this of
                  Inl ex \<Rightarrow> Inl ex
                | Inr str \<Rightarrow> Inl (OrgMetadataError (noExternalKey, [Text (name this), Text str])))
             else
               (case parsedQuery this of
                  None \<Rightarrow> Inl TypeError
                | Some parsed \<Rightarrow>
                    validateFields_forEach C describe isSource xs
                      (this\<lparr>
                         script := Some (warn (if isSource then fieldSourceDoesNtoExist
                                               else fieldTargetDoesNtoExist)
                                           [Text (name this), Text x] scr),
                         parsedQuery :=
                           Some (set_fields (removeBy field x (Query.fields parsed)) parsed)\<rparr>)))
      else validateFields_forEach C describe isSource xs this)"

definition validateFields ::
  "collaborators \<Rightarrow> SObjectDescribe \<Rightarrow> bool \<Rightarrow> ScriptObject \<Rightarrow> error + ScriptObject" where
  "validateFields C describe isSource this =
     (if length (fieldsInQuery this) = 0 then
        (case script this of
           None \<Rightarrow> Inl TypeError
         | Some scr \<Rightarrow>
             Inl (CommandInitializationError (missingFieldsToProcess, [Text (name this)])))
      else if \<not> isExtraObject this \<and> \<not> isSpecialObject C this then
        validateFields_forEach C describe isSource (fieldsInQuery this) this
      else Inr this)"

subsection \<open>Describing the object\<close>

definition and_then :: "error + 'a \<Rightarrow> ('a \<Rightarrow> error + 'b) \<Rightarrow> error + 'b" where
  "and_then r f = (case r of Inl ex \<Rightarrow> Inl ex | Inr v \<Rightarrow> f v)"

text \<open>
  The two \<^verbatim>\<open>try\<close> blocks of \<^verbatim>\<open>describeAsync\<close>. The back reference from a field description
  to the script object is not kept.
\<close>

definition describe_source :: "collaborators \<Rightarrow> Script \<Rightarrow> ScriptObject \<Rightarrow> error + ScriptObject" where
  "describe_source C scr this =
     and_then (describeSObjectAsync C (sourceOrg scr) (name this))
       (\<lambda>describe.
          let this1 = this\<lparr>sourceSObjectDescribe := Some describe\<rparr>;
              this2 = (if media (targetOrg scr) = File
                       then this1\<lparr>targetSObjectDescribe := Some describe\<rparr> else this1)
          in and_then (addOrRemmoveFields C describe this2) (validateFields C describe True))"

definition describe_target :: "collaborators \<Rightarrow> Script \<Rightarrow> ScriptObject \<Rightarrow> error + ScriptObject" where
  "describe_target C scr this =
     and_then (describeSObjectAsync C (targetOrg scr) (name this))
       (\<lambda>describe.
          let this1 = this\<lparr>targetSObjectDescribe := Some describe\<rparr>
          in and_then (if media (sourceOrg scr) = File
                   then addOrRemmoveFields C describe (this1\<lparr>sourceSObjectDescribe := Some describe\<rparr>)
                   else Inr this1)
               (validateFields C describe False))"

text \<open>
  The \<^verbatim>\<open>catch\<close> clauses: a \<^verbatim>\<open>CommandInitializationError\<close> is thrown again, anything else is
  replaced by an \<^verbatim>\<open>OrgMetadataError\<close> with the message of the side and the name that the
  object has when the clause runs (no statement of either block changes the name).
\<close>

definition catch_describe :: "RESOURCES \<Rightarrow> string \<Rightarrow> error + 'a \<Rightarrow> error + 'a" where
  "catch_describe key nm r =
     (case r of
        Inl (CommandInitializationError m) \<Rightarrow> Inl (CommandInitializationError m)
      | Inl _ \<Rightarrow> Inl (OrgMetadataError (key, [Text nm]))
      | Inr v \<Rightarrow> Inr v)"

definition log_getting :: "RESOURCES \<Rightarrow> ScriptObject \<Rightarrow> ScriptObject" where
  "log_getting side this =
     this\<lparr>script := map_option
                        (infoNormal gettingMetadataForSObject [Text (name this), Resource side])
                        (script this)\<rparr>"

definition describeAsync :: "collaborators \<Rightarrow> ScriptObject \<Rightarrow> error + ScriptObject" where
  "describeAsync C this =
     (if isDescribed this then Inr this
      else
        (case script this of
           None \<Rightarrow> Inl TypeError
         | Some scr \<Rightarrow>
             and_then (if media (sourceOrg scr) = Org then
                     catch_describe objectSourceDoesNotExist (name this)
                       (describe_source C scr (log_getting source this))
                   else Inr this)
               (\<lambda>this1.
                  if media (targetOrg scr) = Org then
                    catch_describe objectTargetDoesNotExist (name this1)
                      (describe_target C scr (log_getting target this1))
                  else Inr this1)))"

subsection \<open>Sequences of lifecycle operations\<close>

text \<open>
  The operations that change the field list of the parsed query, to state what holds
  after any sequence of them: \<^verbatim>\<open>setup\<close> with a script, the expansion of the multiselect
  pattern against a description, and the validation against a description on the source
  or the target side. A sequence stops at the first exception.
\<close>

datatype lifecycle_operation =
    Setup Script
  | Expansion SObjectDescribe
  | Validation SObjectDescribe bool

fun lifecycle_step ::
  "collaborators \<Rightarrow> lifecycle_operation \<Rightarrow> ScriptObject \<Rightarrow> error + ScriptObject" where
  "lifecycle_step C (Setup scr) this = ScriptObject_setup C scr this"
| "lifecycle_step C (Expansion describe) this = addOrRemmoveFields C describe this"
| "lifecycle_step C (Validation describe isSource) this = validateFields C describe isSource this"

fun run_lifecycle ::
  "collaborators \<Rightarrow> lifecycle_operation list \<Rightarrow> ScriptObject \<Rightarrow> error + ScriptObject" where
  "run_lifecycle C [] this = Inr this"
| "run_lifecycle C (step # steps) this =
     and_then (lifecycle_step C step this) (run_lifecycle C steps)"

text \<open>
  The field that \<^verbatim>\<open>setup\<close> adds for the external id (lines 259 to 263).
\<close>

definition externalId_field :: "collaborators \<Rightarrow> ScriptObject \<Rightarrow> string" where
  "externalId_field C this =
     (if hasComplexExternalId C this then complexExternalId C this else externalId this)"

text \<open>
  An operation leaves a field \<open>f\<close> of the query alone: an expansion when \<open>f\<close> is not among
  the excluded fields, a validation when \<open>f\<close> is complex or described.
\<close>

fun keeps_field :: "collaborators \<Rightarrow> string list \<Rightarrow> string \<Rightarrow> lifecycle_operation \<Rightarrow> bool" where
  "keeps_field C excl f (Setup scr) = True"
| "keeps_field C excl f (Expansion describe) = (f \<notin> set excl)"
| "keeps_field C excl f (Validation describe isSource) =
     (isComplexOr__rField C f \<or> fieldsMap_has describe f)"

subsection \<open>Sample collaborators and objects\<close>

text \<open>
  Collaborators to run the model with: a composer that writes the fields and the object
  of a query, a parser that knows the query texts of the examples below, complex field
  names marked by a dot or a semicolon, and two descriptions of the object \<^verbatim>\<open>Account\<close>,
  one in the source org and another, with other fields, in the target org.
\<close>

fun comma_separated :: "string list \<Rightarrow> string" where
  "comma_separated [] = []"
| "comma_separated [x] = x"
| "comma_separated (x # y # ys) = x @ '', '' @ comma_separated (y # ys)"

definition sample_composeQuery :: "Query \<Rightarrow> string" where
  "sample_composeQuery q =
     ''SELECT '' @ comma_separated (map field (Query.fields q)) @ '' FROM '' @ sObject q"

definition sample_queries :: "(string \<times> Query) list" where
  "sample_queries =
     [(''SELECT Name, ID, id, Id FROM Account'',
         Query ''Account'' (map SOQLField [''Name'', ''ID'', ''id'', ''Id'']) None None),
      (''SELECT Name FROM Account'',
         Query ''Account'' (map SOQLField [''Name'']) None None),
      (''SELECT Id, Name FROM Account'',
         Query ''Account'' (map SOQLField [''Id'', ''Name'']) None None),
      (''SELECT Id, Phone, Name FROM Account'',
         Query ''Account'' (map SOQLField [''Id'', ''Phone'', ''Name'']) None None),
      (''SELECT Phone, creatable_true FROM Account'',
         Query ''Account'' (map SOQLField [''Phone'', ''creatable_true'']) None None)]"

definition sample_parseQuery :: "string \<Rightarrow> error + Query" where
  "sample_parseQuery q =
     (case map_of sample_queries q of
        None \<Rightarrow> Inl (OtherError ''parse error'')
      | Some parsed \<Rightarrow> Inr parsed)"

definition sample_field :: "string \<Rightarrow> bool \<Rightarrow> SFieldDescribe" where
  "sample_field n c =
     \<lparr>SFieldDescribe.name = n, lookup = False, referencedObjectType = [],
      properties = (\<lambda>prop. if prop = ''creatable'' then Some c else None)\<rparr>"

definition sample_describe :: SObjectDescribe where
  "sample_describe =
     \<lparr>fieldsMap = map (\<lambda>(n, c). (n, sample_field n c))
        [(''Id'', False), (''Phone'', True), (''Fax'', True), (''CreatedDate'', False)]\<rparr>"

definition sample_target_describe :: SObjectDescribe where
  "sample_target_describe =
     \<lparr>fieldsMap = map (\<lambda>(n, c). (n, sample_field n c))
        [(''Id'', False), (''Phone'', True), (''Name'', True)]\<rparr>"

definition sample_collaborators :: collaborators where
  "sample_collaborators =
     \<lparr>parseQuery = sample_parseQuery,
      composeQuery = sample_composeQuery,
      describeSObjectAsync =
        (\<lambda>org nm. if nm \<noteq> ''Account'' then Inl (OtherError ''not found'')
                   else if ScriptOrg.name org = ''target org'' then Inr sample_target_describe
                   else Inr sample_describe),
      isComplexOr__rField = (\<lambda>x. CHR ''.'' \<in> set x \<or> CHR '';'' \<in> set x),
      getComplexField = (\<lambda>x. if CHR ''.'' \<in> set x \<or> CHR '';'' \<in> set x then ''$$'' @ x else x),
      composeWhereClause = (\<lambda>w f v op t l. w),
      filterMapByArray = (\<lambda>keys m. filter (\<lambda>(k, d). k \<in> set keys) m),
      MULTISELECT_SOQL_KEYWORDS = [''creatable_true'', ''creatable_false''],
      SPECIAL_OBJECTS = [],
      OBJECTS_NOT_TO_USE_IN_QUERY_MULTISELECT = []\<rparr>"

definition sample_script :: "DATA_MEDIA_TYPE \<Rightarrow> DATA_MEDIA_TYPE \<Rightarrow> Script" where
  "sample_script src tgt =
     \<lparr>logger = [], isPersonAccountEnabled = False,
      sourceOrg = \<lparr>ScriptOrg.name = ''source org'', media = src\<rparr>,
      targetOrg = \<lparr>ScriptOrg.name = ''target org'', media = tgt\<rparr>,
      objectsMap = []\<rparr>"

text \<open>
  A script object as the class constructs it (the default external id is a constant of
  \<^verbatim>\<open>statics.ts\<close>; the samples use the field \<^verbatim>\<open>Name\<close>), with the query, the operation and
  the excluded fields of a script file.
\<close>

definition sample_object :: "string \<Rightarrow> op_value \<Rightarrow> string list \<Rightarrow> ScriptObject" where
  "sample_object q op excl =
     \<lparr>query = q, deleteQuery = [], operation = op, externalId = ''Name'',
      deleteOldData = False, updateWithMockData = False, mockCSVData = False,
      targetRecordsFilter = [], excluded = False, useCSVValuesMapping = False,
      allRecords = True, excludedFields = excl, script = None, name = [],
      sourceSObjectDescribe = None, targetSObjectDescribe = None,
      originalExternalId = [], parsedQuery = None, parsedDeleteQuery = None,
      isExtraObject = False, processAllSource = False, processAllTarget = False,
      multiselectPattern = None\<rparr>"

text \<open>
  The sample object after \<^verbatim>\<open>setup\<close> with the sample collaborators and a script.
\<close>

definition sample_configured :: "string \<Rightarrow> op_value \<Rightarrow> string list \<Rightarrow> Script \<Rightarrow> ScriptObject" where
  "sample_configured q op excl scr =
     (case ScriptObject_setup sample_collaborators scr (sample_object q op excl) of
        Inl ex \<Rightarrow> sample_object q op excl
      | Inr this \<Rightarrow> this)"

section \<open>Properties\<close>

subsection \<open>Evaluating the model\<close>

lemma compare_eval:
  "compare a b False = (a = b \<or> b = None)"
  "compare None b True = False"
  "compare (Some x) None True = True"
  "compare (Some x) (Some y) True = (x \<noteq> y)"
  by (simp_all add: compare_def)

lemmas setup_simps =
  ScriptObject_setup_def isInitialized_def setup_init_def getOperation_def OPERATION_index_def
  ScriptObject_parseQuery_def toLowerCase_def getComposedField_def set_fields_def set_where_def
  Let_def setup_update_def setup_fields_def push_field_def hasComplexExternalId_def
  complexExternalId_def complexOriginalExternalId_def setup_deleteQuery_def fieldsInQuery_def
  objectsMap_set_def parseQuery_set_def

lemmas sample_simps =
  sample_collaborators_def sample_script_def sample_object_def sample_parseQuery_def
  sample_queries_def sample_composeQuery_def sample_describe_def sample_target_describe_def
  sample_field_def

lemmas describe_simps =
  describeAsync_def isDescribed_def describe_source_def describe_target_def and_then_def
  catch_describe_def log_getting_def infoNormal_def warn_def addOrRemmoveFields_def
  added_names_def multiselect_adds_def compare_eval fieldsMap_values_def fieldsMap_has_def
  validateFields_def isSpecialObject_def name_of_string_def sample_configured_def

lemmas eval_simps = setup_simps sample_simps describe_simps

subsection \<open>Facts about setup\<close>





lemma fields_set_fields [simp]: "Query.fields (set_fields fs q) = fs"
  by (simp add: set_fields_def)

lemma sObject_set_fields [simp]: "sObject (set_fields fs q) = sObject q"
  by (simp add: set_fields_def)


lemma ScriptObject_parseQuery_object:
  assumes "ScriptObject_parseQuery C this q = Inr (this', parsed)"
  shows "this' = this\<lparr>multiselectPattern := multiselectPattern this', query := composeQuery C parsed\<rparr>"
  using assms by (auto simp: ScriptObject_parseQuery_def Let_def split: sum.splits prod.splits)

lemma distinctArray_set: "set (distinctArray key xs) \<subseteq> set xs"
  by (induction key xs rule: distinctArray.induct) auto

lemma distinctArray_image: "key ` set (distinctArray key xs) = key ` set xs"
  by (induction key xs rule: distinctArray.induct) auto

lemma distinctArray_distinct: "distinct (map key (distinctArray key xs))"
proof (induction key xs rule: distinctArray.induct)
  case (1 key)
  then show ?case by simp
next
  case (2 key x xs)
  have "key x \<notin> key ` set (distinctArray key (filter (\<lambda>y. key y \<noteq> key x) xs))"
    by (auto simp: distinctArray_image)
  with 2 show ?case by simp
qed

lemma distinct_count_list: "distinct xs \<Longrightarrow> count_list xs x = (if x \<in> set xs then 1 else 0)"
  by (induction xs) auto


lemma setup_fields_distinct:
  "distinct (map field (Query.fields (setup_fields C scr this parsed)))"
  by (simp add: setup_fields_def Let_def distinctArray_distinct)

lemma setup_deleteQuery_keeps:
  assumes "setup_deleteQuery C scr this = Inr this'"
  shows "parsedQuery this' = parsedQuery this \<and> externalId this' = externalId this
    \<and> script this' = script this \<and> excludedFields this' = excludedFields this
    \<and> operation this' = operation this"
  using assms by (auto simp: setup_deleteQuery_def Let_def split: if_splits sum.splits)

lemma setup_Inr:
  assumes "\<not> isInitialized this" "ScriptObject_setup C scr this = Inr this'"
  obtains this2 parsed where
    "ScriptObject_parseQuery C (setup_init scr this) (query (setup_init scr this)) = Inr (this2, parsed)"
    "setup_deleteQuery C scr (setup_update C scr this2 parsed) = Inr this'"
  using assms by (auto simp: ScriptObject_setup_def Let_def split: sum.splits)

lemma parsedQuery_setup_update [simp]:
  "parsedQuery (setup_update C scr this parsed) = Some (setup_fields C scr this parsed)"
  by (simp add: setup_update_def Let_def)

lemma map_distinctArray: "map key (distinctArray key xs) = distinctArray (\<lambda>x. x) (map key xs)"
  by (induction key xs rule: distinctArray.induct) (simp_all add: filter_map comp_def)

lemma setup_init_externalId_Insert:
  "getOperation (operation this) = OpMember Insert \<Longrightarrow> externalId (setup_init scr this) = ''Id''"
  by (simp add: setup_init_def Let_def)

lemma setup_init_not_Insert:
  "getOperation (operation this) \<noteq> OpMember Insert \<Longrightarrow>
     externalId (setup_init scr this) = externalId this"
  by (simp add: setup_init_def Let_def)

lemma setup_init_fields:
  "operation (setup_init scr this) = getOperation (operation this)"
  "originalExternalId (setup_init scr this) = externalId this"
  "name (setup_init scr this) = name this"
  "deleteOldData (setup_init scr this) = deleteOldData this"
  by (simp_all add: setup_init_def Let_def)

lemma ScriptObject_parseQuery_keeps:
  assumes "ScriptObject_parseQuery C this q = Inr (this', parsed)"
  shows "externalId this' = externalId this" "originalExternalId this' = originalExternalId this"
    "operation this' = operation this" "name this' = name this" "script this' = script this"
    "deleteOldData this' = deleteOldData this"
  using assms by (auto simp: ScriptObject_parseQuery_def Let_def split: sum.splits prod.splits)

lemma setup_update_fields:
  "externalId (setup_update C scr this parsed) = externalId this"
  "script (setup_update C scr this parsed) \<noteq> None"
  "deleteOldData (setup_update C scr this parsed) = (operation this = OpMember Delete \<or> deleteOldData this)"
  by (simp_all add: setup_update_def Let_def)

lemma setup_isInitialized:
  assumes "ScriptObject_setup C scr this = Inr this'"
  shows "isInitialized this'"
proof (cases "isInitialized this")
  case True
  with assms show ?thesis by (simp add: ScriptObject_setup_def)
next
  case False
  from False assms obtain this2 parsed where
    d: "setup_deleteQuery C scr (setup_update C scr this2 parsed) = Inr this'"
    by (rule setup_Inr)
  show ?thesis
    using setup_deleteQuery_keeps [OF d] setup_update_fields(2) [of C scr this2 parsed]
    by (simp add: isInitialized_def)
qed

lemma setup_deleteQuery_Delete:
  assumes "setup_deleteQuery C scr this = Inr this'" and "deleteOldData this"
  shows "map_option (\<lambda>q. map field (Query.fields q)) (parsedDeleteQuery this') = Some [''Id'']"
  using assms
  by (auto simp: setup_deleteQuery_def Let_def getComposedField_def set_where_def
      split: if_splits sum.splits)

lemma setup_fields_Delete:
  assumes "operation this = OpMember Delete"
  shows "map field (Query.fields (setup_fields C scr this parsed)) =
    distinctArray (\<lambda>x. x)
      ([''Id'',
        if isComplexOr__rField C (externalId this) then getComplexField C (externalId this)
        else externalId this,
        getComplexField C (originalExternalId this)]
       @ (if isPersonAccountEnabled scr \<and> (name this = ''Account'' \<or> name this = ''Contact'')
          then [''IsPersonAccount''] else []))"
  using assms
  by (auto simp add: setup_fields_def Let_def push_field_def getComposedField_def map_distinctArray
      hasComplexExternalId_def complexExternalId_def complexOriginalExternalId_def
      simp del: distinctArray.simps)

lemma setup_fields_members:
  "''Id'' \<in> set (map field (Query.fields (setup_fields C scr this parsed)))"
  "externalId_field C this \<in> set (map field (Query.fields (setup_fields C scr this parsed)))"
  by (auto simp add: setup_fields_def Let_def push_field_def list_ex_iff externalId_field_def
      getComposedField_def distinctArray_image image_Un simp del: distinctArray.simps)

lemma setup_excludedFields:
  assumes "\<not> isInitialized this" "ScriptObject_setup C scr this = Inr this'"
  shows "excludedFields this' = excludedFields this"
proof -
  from assms obtain this2 parsed where
    p: "ScriptObject_parseQuery C (setup_init scr this) (query (setup_init scr this)) = Inr (this2, parsed)"
    and d: "setup_deleteQuery C scr (setup_update C scr this2 parsed) = Inr this'"
    by (rule setup_Inr)
  have "excludedFields this2 = excludedFields (setup_init scr this)"
    using p by (auto simp: ScriptObject_parseQuery_def Let_def split: sum.splits prod.splits)
  moreover have "excludedFields (setup_init scr this) = excludedFields this"
    by (simp add: setup_init_def Let_def)
  moreover have "excludedFields (setup_update C scr this2 parsed) = excludedFields this2"
    by (simp add: setup_update_def Let_def)
  ultimately show ?thesis using setup_deleteQuery_keeps [OF d] by simp
qed

lemma setup_mandatory_once:
  assumes "\<not> isInitialized this" "ScriptObject_setup C scr this = Inr this'"
    and "f = ''Id'' \<or> f = externalId_field C this'"
  shows "count_list (fieldsInQuery this') f = 1"
proof -
  from assms(1,2) obtain this2 parsed where
    p: "ScriptObject_parseQuery C (setup_init scr this) (query (setup_init scr this)) = Inr (this2, parsed)"
    and d: "setup_deleteQuery C scr (setup_update C scr this2 parsed) = Inr this'"
    by (rule setup_Inr)
  have q: "fieldsInQuery this' = map field (Query.fields (setup_fields C scr this2 parsed))"
    using setup_deleteQuery_keeps [OF d] by (simp add: fieldsInQuery_def)
  have "externalId this' = externalId this2"
    using setup_deleteQuery_keeps [OF d] by (simp add: setup_update_fields)
  then have "externalId_field C this' = externalId_field C this2"
    by (simp add: externalId_field_def hasComplexExternalId_def complexExternalId_def)
  with assms(3) have "f \<in> set (fieldsInQuery this')"
    using setup_fields_members(1) [of C scr this2 parsed] setup_fields_members(2) [of C this2 scr parsed] q by auto
  then show ?thesis
    using distinct_count_list [OF setup_fields_distinct, of C scr this2 parsed f] q by simp
qed







lemma filter_distinctArray:
  "filter P (distinctArray (\<lambda>x. x) xs) = distinctArray (\<lambda>x. x) (filter P xs)"
proof (induction xs rule: length_induct)
  case (1 xs)
  show ?case
  proof (cases xs)
    case Nil
    then show ?thesis by simp
  next
    case (Cons y ys)
    have "length (filter (\<lambda>z. z \<noteq> y) ys) < length xs"
      using Cons by (simp add: le_imp_less_Suc)
    with 1 have "filter P (distinctArray (\<lambda>x. x) (filter (\<lambda>z. z \<noteq> y) ys))
        = distinctArray (\<lambda>x. x) (filter P (filter (\<lambda>z. z \<noteq> y) ys))"
      by blast
    moreover have "filter P (filter (\<lambda>z. z \<noteq> y) ys) = filter (\<lambda>z. z \<noteq> y) (filter P ys)"
      by (simp add: conj_commute)
    moreover have "P y \<or> distinctArray (\<lambda>x. x) (filter (\<lambda>z. z \<noteq> y) (filter P ys))
        = distinctArray (\<lambda>x. x) (filter P ys)"
    proof (cases "P y")
      case True
      then show ?thesis by simp
    next
      case False
      then have "filter (\<lambda>z. z \<noteq> y) (filter P ys) = filter P ys"
        by (induction ys) auto
      then show ?thesis by simp
    qed
    ultimately show ?thesis using Cons by auto
  qed
qed

lemma setup_Delete_fieldsInQuery:
  assumes "\<not> isInitialized this" and "getOperation (operation this) = OpMember Delete"
    and "ScriptObject_setup C scr this = Inr this'"
  shows "fieldsInQuery this' =
      distinctArray (\<lambda>x. x)
        ([''Id'',
          if isComplexOr__rField C (externalId this) then getComplexField C (externalId this)
          else externalId this,
          getComplexField C (externalId this)]
         @ (if isPersonAccountEnabled scr \<and> (name this = ''Account'' \<or> name this = ''Contact'')
            then [''IsPersonAccount''] else []))
    \<and> map_option (\<lambda>q. map field (Query.fields q)) (parsedDeleteQuery this') = Some [''Id'']"
proof -
  from assms(1,3) obtain this2 parsed where
    p: "ScriptObject_parseQuery C (setup_init scr this) (query (setup_init scr this)) = Inr (this2, parsed)"
    and d: "setup_deleteQuery C scr (setup_update C scr this2 parsed) = Inr this'"
    by (rule setup_Inr)
  note k = ScriptObject_parseQuery_keeps [OF p]
  have op: "operation this2 = OpMember Delete"
    using k(3) assms(2) by (simp add: setup_init_fields)
  have e: "externalId this2 = externalId this"
    using k(1) assms(2) by (simp add: setup_init_not_Insert)
  have o: "originalExternalId this2 = externalId this"
    using k(2) by (simp add: setup_init_fields)
  have n: "name this2 = name this"
    using k(4) by (simp add: setup_init_fields)
  have "fieldsInQuery this' = map field (Query.fields (setup_fields C scr this2 parsed))"
    using setup_deleteQuery_keeps [OF d] by (simp add: fieldsInQuery_def)
  then have f: "fieldsInQuery this' =
      distinctArray (\<lambda>x. x)
        ([''Id'',
          if isComplexOr__rField C (externalId this) then getComplexField C (externalId this)
          else externalId this,
          getComplexField C (externalId this)]
         @ (if isPersonAccountEnabled scr \<and> (name this = ''Account'' \<or> name this = ''Contact'')
            then [''IsPersonAccount''] else []))"
    using setup_fields_Delete [OF op, of C scr parsed] unfolding e o n
    by (simp del: distinctArray.simps)
  have "deleteOldData (setup_update C scr this2 parsed)"
    using op by (simp add: setup_update_fields)
  from setup_deleteQuery_Delete [OF d this] f show ?thesis by simp
qed

subsection \<open>Facts about the expansion of the pattern\<close>

lemma addOrRemmoveFields_Inr:
  assumes "addOrRemmoveFields C describe this = Inr this'"
  obtains parsed where "parsedQuery this = Some parsed"
    and "this' = this\<lparr>parsedQuery := Some (set_fields
            (filter (\<lambda>f. field f \<notin> set (excludedFields this))
               (Query.fields parsed @ map getComposedField (added_names C describe this))) parsed),
          query := composeQuery C (set_fields
            (filter (\<lambda>f. field f \<notin> set (excludedFields this))
               (Query.fields parsed @ map getComposedField (added_names C describe this))) parsed)\<rparr>"
  using assms
  by (auto simp: addOrRemmoveFields_def Let_def split: option.splits)

lemma field_getComposedField [simp]: "field (getComposedField n) = n"
  by (simp add: getComposedField_def)

lemma addOrRemmoveFields_fieldsInQuery:
  assumes "addOrRemmoveFields C describe this = Inr this'"
  shows "fieldsInQuery this' =
    filter (\<lambda>n. n \<notin> set (excludedFields this)) (fieldsInQuery this @ added_names C describe this)"
  using assms
  by (rule addOrRemmoveFields_Inr) (simp add: fieldsInQuery_def filter_map comp_def)

lemma addOrRemmoveFields_keeps:
  assumes "addOrRemmoveFields C describe this = Inr this'"
  shows "excludedFields this' = excludedFields this" "multiselectPattern this' = multiselectPattern this"
    "externalId this' = externalId this" "name this' = name this" "script this' = script this"
    "isExtraObject this' = isExtraObject this"
    "sourceSObjectDescribe this' = sourceSObjectDescribe this"
  using assms by (auto elim!: addOrRemmoveFields_Inr)

lemma added_names_fresh: "n \<in> set (added_names C describe this) \<Longrightarrow> n \<notin> set (fieldsInQuery this)"
  by (auto simp: added_names_def multiselect_adds_def compare_def split: option.splits)

lemma added_names_again:
  assumes "addOrRemmoveFields C describe this = Inr this'"
    and "n \<in> set (added_names C describe this')"
  shows "n \<in> set (excludedFields this)"
proof (rule ccontr)
  assume x: "n \<notin> set (excludedFields this)"
  note f = addOrRemmoveFields_fieldsInQuery [OF assms(1)]
  from assms(2) obtain pattern where
    p: "multiselectPattern this' = Some pattern"
    and m: "n \<in> set (map SFieldDescribe.name
          (filter (multiselect_adds C pattern (fieldsInQuery this')) (fieldsMap_values describe)))"
    by (cases "multiselectPattern this'") (simp_all add: added_names_def)
  from m obtain fd where
    fd: "fd \<in> set (fieldsMap_values describe)" "SFieldDescribe.name fd = n"
    and a: "multiselect_adds C pattern (fieldsInQuery this') fd"
    by auto
  from a fd have n': "n \<notin> set (fieldsInQuery this')"
    by (simp add: multiselect_adds_def compare_def)
  with f x have n0: "n \<notin> set (fieldsInQuery this)" and na: "n \<notin> set (added_names C describe this)"
    by auto
  from p have p0: "multiselectPattern this = Some pattern"
    using addOrRemmoveFields_keeps(2) [OF assms(1)] by simp
  from a n0 fd have "multiselect_adds C pattern (fieldsInQuery this) fd"
    by (simp add: multiselect_adds_def compare_def)
  with fd p0 have "n \<in> set (added_names C describe this)"
    by (auto simp: added_names_def)
  with na show False by simp
qed

lemma addOrRemmoveFields_twice:
  assumes "addOrRemmoveFields C describe this = Inr this'"
  shows "addOrRemmoveFields C describe this' = Inr this'"
proof -
  from assms obtain parsed where p: "parsedQuery this = Some parsed"
    and t: "this' = this\<lparr>parsedQuery := Some (set_fields
            (filter (\<lambda>f. field f \<notin> set (excludedFields this))
               (Query.fields parsed @ map getComposedField (added_names C describe this))) parsed),
          query := composeQuery C (set_fields
            (filter (\<lambda>f. field f \<notin> set (excludedFields this))
               (Query.fields parsed @ map getComposedField (added_names C describe this))) parsed)\<rparr>"
    by (rule addOrRemmoveFields_Inr)
  let ?fs = "filter (\<lambda>f. field f \<notin> set (excludedFields this))
               (Query.fields parsed @ map getComposedField (added_names C describe this))"
  have again: "filter (\<lambda>f. field f \<notin> set (excludedFields this))
      (map getComposedField (added_names C describe this')) = []"
    using added_names_again [OF assms] by (auto simp: filter_empty_conv)
  have pq: "parsedQuery this' = Some (set_fields ?fs parsed)"
    by (subst t) simp
  have ex: "excludedFields this' = excludedFields this"
    by (subst t) simp
  have "addOrRemmoveFields C describe this' =
      Inr (this'\<lparr>parsedQuery := Some (set_fields ?fs parsed),
                 query := composeQuery C (set_fields ?fs parsed)\<rparr>)"
    unfolding addOrRemmoveFields_def pq ex
    by (simp add: Let_def again set_fields_def)
  also have "this'\<lparr>parsedQuery := Some (set_fields ?fs parsed),
                 query := composeQuery C (set_fields ?fs parsed)\<rparr> = this'"
  proof -
    have q: "query this' = composeQuery C (set_fields ?fs parsed)"
      by (subst t) simp
    have "this'\<lparr>parsedQuery := parsedQuery this', query := query this'\<rparr> = this'"
      by simp
    then show ?thesis by (simp only: pq q)
  qed
  finally show ?thesis .
qed

lemma addOrRemmoveFields_excluded:
  assumes "addOrRemmoveFields C describe this = Inr this'"
  shows "set (fieldsInQuery this') \<inter> set (excludedFields this') = {}"
  using addOrRemmoveFields_fieldsInQuery [OF assms] addOrRemmoveFields_keeps(1) [OF assms]
  by auto

lemma addOrRemmoveFields_count:
  assumes "addOrRemmoveFields C describe this = Inr this'"
    and "f \<in> set (fieldsInQuery this)" and "f \<notin> set (excludedFields this)"
  shows "count_list (fieldsInQuery this') f = count_list (fieldsInQuery this) f"
proof -
  have "f \<notin> set (added_names C describe this)"
    using assms(2) added_names_fresh by blast
  then have "count_list (added_names C describe this) f = 0"
    by simp
  moreover have "count_list (filter (\<lambda>n. n \<notin> set (excludedFields this)) zs) f = count_list zs f" for zs
    using assms(3) by (induction zs) auto
  ultimately show ?thesis
    using addOrRemmoveFields_fieldsInQuery [OF assms(1)] by simp
qed

subsection \<open>Facts about the validation\<close>

lemma removeBy_set: "set (removeBy key v xs) \<subseteq> set xs"
  by (induction xs) auto

lemma removeBy_count_other:
  "w \<noteq> v \<Longrightarrow> count_list (map key (removeBy key v xs)) w = count_list (map key xs) w"
  by (induction xs) auto

lemma validateFields_forEach_step:
  assumes "validateFields_forEach C describe isSource (x # xs) this = Inr this'"
  obtains (kept) "isComplexOr__rField C x \<or> fieldsMap_has describe x"
      "validateFields_forEach C describe isSource xs this = Inr this'"
    | (removed) scr parsed where "\<not> isComplexOr__rField C x" "\<not> fieldsMap_has describe x"
      "script this = Some scr" "parsedQuery this = Some parsed"
      "validateFields_forEach C describe isSource xs
         (this\<lparr>script := Some (warn (if isSource then fieldSourceDoesNtoExist
                                       else fieldTargetDoesNtoExist)
                                   [Text (name this), Text x] scr),
               parsedQuery := Some (set_fields (removeBy field x (Query.fields parsed)) parsed)\<rparr>)
       = Inr this'"
  using assms
  by (auto simp: name_of_string_def split: if_splits option.splits)

lemma validateFields_forEach_keeps:
  assumes "validateFields_forEach C describe isSource xs this = Inr this'"
  shows "set (fieldsInQuery this') \<subseteq> set (fieldsInQuery this)
    \<and> excludedFields this' = excludedFields this
    \<and> externalId this' = externalId this
    \<and> name this' = name this
    \<and> sourceSObjectDescribe this' = sourceSObjectDescribe this
    \<and> targetSObjectDescribe this' = targetSObjectDescribe this
    \<and> (script this \<noteq> None \<longrightarrow> script this' \<noteq> None)"
  using assms
proof (induction xs arbitrary: this)
  case Nil
  then show ?case by simp
next
  case (Cons x xs)
  from Cons.prems show ?case
  proof (cases rule: validateFields_forEach_step)
    case kept
    then show ?thesis using Cons.IH by blast
  next
    case (removed scr parsed)
    let ?next = "this\<lparr>script := Some (warn (if isSource then fieldSourceDoesNtoExist
                                       else fieldTargetDoesNtoExist)
                                   [Text (name this), Text x] scr),
               parsedQuery := Some (set_fields (removeBy field x (Query.fields parsed)) parsed)\<rparr>"
    have "set (fieldsInQuery ?next) \<subseteq> set (fieldsInQuery this)"
      using removeBy_set [of field x "Query.fields parsed"] removed(4)
      by (simp add: fieldsInQuery_def image_mono)
    moreover have "set (fieldsInQuery this') \<subseteq> set (fieldsInQuery ?next)"
      using Cons.IH [OF removed(5)] by simp
    ultimately have "set (fieldsInQuery this') \<subseteq> set (fieldsInQuery this)"
      by blast
    then show ?thesis
      using Cons.IH [OF removed(5)] by simp
  qed
qed

lemma validateFields_forEach_count:
  assumes "validateFields_forEach C describe isSource xs this = Inr this'"
    and "isComplexOr__rField C f \<or> fieldsMap_has describe f"
  shows "count_list (fieldsInQuery this') f = count_list (fieldsInQuery this) f"
  using assms
proof (induction xs arbitrary: this)
  case Nil
  then show ?case by simp
next
  case (Cons x xs)
  from Cons.prems(1) show ?case
  proof (cases rule: validateFields_forEach_step)
    case kept
    then show ?thesis using Cons.IH Cons.prems(2) by blast
  next
    case (removed scr parsed)
    from removed(1,2) Cons.prems(2) have "f \<noteq> x" by auto
    then have "count_list (map field (removeBy field x (Query.fields parsed))) f
        = count_list (map field (Query.fields parsed)) f"
      by (rule removeBy_count_other)
    with Cons.IH [OF removed(5) Cons.prems(2)] removed(4) show ?thesis
      by (simp add: fieldsInQuery_def)
  qed
qed

lemma validateFields_Inr:
  assumes "validateFields C describe isSource this = Inr this'"
  obtains (checked) "validateFields_forEach C describe isSource (fieldsInQuery this) this = Inr this'"
    | (skipped) "this' = this"
proof (cases "length (fieldsInQuery this) = 0")
  case True
  with assms show ?thesis
    by (cases "script this") (simp_all add: validateFields_def)
next
  case False
  show ?thesis
  proof (cases "\<not> isExtraObject this \<and> \<not> isSpecialObject C this")
    case True
    with False assms have "validateFields_forEach C describe isSource (fieldsInQuery this) this = Inr this'"
      by (simp add: validateFields_def)
    then show ?thesis by (rule checked)
  next
    case x: False
    with False assms have "this' = this"
      by (simp add: validateFields_def)
    then show ?thesis by (rule skipped)
  qed
qed

lemma validateFields_keeps:
  assumes "validateFields C describe isSource this = Inr this'"
  shows "set (fieldsInQuery this') \<subseteq> set (fieldsInQuery this)
    \<and> excludedFields this' = excludedFields this
    \<and> externalId this' = externalId this
    \<and> name this' = name this
    \<and> sourceSObjectDescribe this' = sourceSObjectDescribe this
    \<and> targetSObjectDescribe this' = targetSObjectDescribe this
    \<and> (script this \<noteq> None \<longrightarrow> script this' \<noteq> None)"
  using assms
proof (cases rule: validateFields_Inr)
  case checked
  then show ?thesis by (rule validateFields_forEach_keeps)
next
  case skipped
  then show ?thesis by simp
qed

lemma validateFields_count:
  assumes "validateFields C describe isSource this = Inr this'"
    and "isComplexOr__rField C f \<or> fieldsMap_has describe f"
  shows "count_list (fieldsInQuery this') f = count_list (fieldsInQuery this) f"
  using assms(1)
proof (cases rule: validateFields_Inr)
  case checked
  then show ?thesis using assms(2) by (rule validateFields_forEach_count)
next
  case skipped
  then show ?thesis by simp
qed

lemma validateFields_forEach_not_OrgMetadataError:
  "validateFields_forEach C describe isSource xs this \<noteq> Inl (OrgMetadataError m)"
  by (induction xs arbitrary: this)
    (auto simp: name_of_string_def TypeError_def split: option.splits)

subsection \<open>Facts about describing the object\<close>

lemma log_getting_keeps [simp]:
  "fieldsInQuery (log_getting side this) = fieldsInQuery this"
  "excludedFields (log_getting side this) = excludedFields this"
  "name (log_getting side this) = name this"
  "parsedQuery (log_getting side this) = parsedQuery this"
  by (simp_all add: log_getting_def fieldsInQuery_def)

lemma catch_describe_Inr: "catch_describe key nm r = Inr v \<Longrightarrow> r = Inr v"
  by (cases r) (auto simp: catch_describe_def split: error.splits)

lemma catch_describe_Inl:
  "catch_describe key nm (Inl ex) =
     Inl (case ex of CommandInitializationError m \<Rightarrow> ex
          | _ \<Rightarrow> OrgMetadataError (key, [Text nm]))"
  by (cases ex) (simp_all add: catch_describe_def)

lemma and_then_Inr:
  assumes "and_then r f = Inr v"
  obtains u where "r = Inr u" "f u = Inr v"
  using assms by (cases r) (simp_all add: and_then_def)

lemma describe_source_Inr:
  assumes "describe_source C scr this = Inr this'"
  obtains describe this1 this2 where
    "excludedFields this1 = excludedFields this" "name this1 = name this"
    "fieldsInQuery this1 = fieldsInQuery this"
    "addOrRemmoveFields C describe this1 = Inr this2"
    "validateFields C describe True this2 = Inr this'"
proof -
  from assms obtain describe where
    r: "(let this1 = this\<lparr>sourceSObjectDescribe := Some describe\<rparr>;
              this2 = (if media (targetOrg scr) = File
                       then this1\<lparr>targetSObjectDescribe := Some describe\<rparr> else this1)
          in and_then (addOrRemmoveFields C describe this2) (validateFields C describe True)) = Inr this'"
    unfolding describe_source_def by (rule and_then_Inr)
  let ?this1 = "(if media (targetOrg scr) = File
                 then this\<lparr>sourceSObjectDescribe := Some describe, targetSObjectDescribe := Some describe\<rparr>
                 else this\<lparr>sourceSObjectDescribe := Some describe\<rparr>)"
  from r have "and_then (addOrRemmoveFields C describe ?this1) (validateFields C describe True) = Inr this'"
    by (simp add: Let_def split: if_splits)
  then obtain this2 where a: "addOrRemmoveFields C describe ?this1 = Inr this2"
    and v: "validateFields C describe True this2 = Inr this'"
    by (rule and_then_Inr)
  have "excludedFields ?this1 = excludedFields this" "name ?this1 = name this"
    "fieldsInQuery ?this1 = fieldsInQuery this"
    by (simp_all add: fieldsInQuery_def)
  from this a v show ?thesis by (rule that)
qed

lemma describe_target_Inr:
  assumes "describe_target C scr this = Inr this'"
  obtains (expanded) describe this1 this2 where "media (sourceOrg scr) = File"
    "excludedFields this1 = excludedFields this" "name this1 = name this"
    "fieldsInQuery this1 = fieldsInQuery this"
    "addOrRemmoveFields C describe this1 = Inr this2"
    "validateFields C describe False this2 = Inr this'"
  | (validated) describe this1 where "media (sourceOrg scr) \<noteq> File"
    "excludedFields this1 = excludedFields this" "name this1 = name this"
    "fieldsInQuery this1 = fieldsInQuery this"
    "validateFields C describe False this1 = Inr this'"
proof -
  from assms obtain describe where
    r: "(let this1 = this\<lparr>targetSObjectDescribe := Some describe\<rparr>
          in and_then (if media (sourceOrg scr) = File
                   then addOrRemmoveFields C describe (this1\<lparr>sourceSObjectDescribe := Some describe\<rparr>)
                   else Inr this1)
               (validateFields C describe False)) = Inr this'"
    unfolding describe_target_def by (rule and_then_Inr)
  show ?thesis
  proof (cases "media (sourceOrg scr) = File")
    case True
    let ?this1 = "this\<lparr>targetSObjectDescribe := Some describe, sourceSObjectDescribe := Some describe\<rparr>"
    from r True have "and_then (addOrRemmoveFields C describe ?this1) (validateFields C describe False) = Inr this'"
      by (simp add: Let_def)
    then obtain this2 where a: "addOrRemmoveFields C describe ?this1 = Inr this2"
      and v: "validateFields C describe False this2 = Inr this'"
      by (rule and_then_Inr)
    have "excludedFields ?this1 = excludedFields this" "name ?this1 = name this"
      "fieldsInQuery ?this1 = fieldsInQuery this"
      by (simp_all add: fieldsInQuery_def)
    from True this a v show ?thesis by (rule expanded)
  next
    case False
    let ?this1 = "this\<lparr>targetSObjectDescribe := Some describe\<rparr>"
    from r False have v: "validateFields C describe False ?this1 = Inr this'"
      by (simp add: Let_def and_then_def)
    have "excludedFields ?this1 = excludedFields this" "name ?this1 = name this"
      "fieldsInQuery ?this1 = fieldsInQuery this"
      by (simp_all add: fieldsInQuery_def)
    from False this v show ?thesis by (rule validated)
  qed
qed

lemma describe_source_excluded:
  assumes "describe_source C scr this = Inr this'"
  shows "excludedFields this' = excludedFields this
    \<and> name this' = name this
    \<and> set (fieldsInQuery this') \<inter> set (excludedFields this) = {}"
  using assms
proof (cases rule: describe_source_Inr)
  case (1 describe this1 this2)
  note a = addOrRemmoveFields_excluded [OF 1(4)] addOrRemmoveFields_keeps(1,4) [OF 1(4)]
  note v = validateFields_keeps [OF 1(5)]
  from a v 1(1,2) show ?thesis by auto
qed

lemma describe_target_excluded:
  assumes "describe_target C scr this = Inr this'"
    and "media (sourceOrg scr) = File \<or> set (fieldsInQuery this) \<inter> set (excludedFields this) = {}"
  shows "excludedFields this' = excludedFields this
    \<and> name this' = name this
    \<and> set (fieldsInQuery this') \<inter> set (excludedFields this) = {}"
  using assms(1)
proof (cases rule: describe_target_Inr)
  case (expanded describe this1 this2)
  note a = addOrRemmoveFields_excluded [OF expanded(5)] addOrRemmoveFields_keeps(1,4) [OF expanded(5)]
  note v = validateFields_keeps [OF expanded(6)]
  from a v expanded(2,3) show ?thesis by auto
next
  case (validated describe this1)
  note v = validateFields_keeps [OF validated(5)]
  from assms(2) validated(1) have "set (fieldsInQuery this) \<inter> set (excludedFields this) = {}"
    by simp
  with v validated(2,3,4) show ?thesis by auto
qed

lemma describeAsync_Inr:
  assumes "\<not> isDescribed this" "script this = Some scr" "describeAsync C this = Inr this'"
  obtains this1 where
    "if media (sourceOrg scr) = Org
     then describe_source C scr (log_getting source this) = Inr this1
     else this1 = this"
    "if media (targetOrg scr) = Org
     then describe_target C scr (log_getting target this1) = Inr this'
     else this' = this1"
proof -
  from assms have "and_then (if media (sourceOrg scr) = Org then
                     catch_describe objectSourceDoesNotExist (name this)
                       (describe_source C scr (log_getting source this))
                   else Inr this)
               (\<lambda>this1.
                  if media (targetOrg scr) = Org then
                    catch_describe objectTargetDoesNotExist (name this1)
                      (describe_target C scr (log_getting target this1))
                  else Inr this1) = Inr this'"
    by (simp add: describeAsync_def)
  then obtain this1 where
    s: "(if media (sourceOrg scr) = Org then
                     catch_describe objectSourceDoesNotExist (name this)
                       (describe_source C scr (log_getting source this))
                   else Inr this) = Inr this1"
    and t: "(if media (targetOrg scr) = Org then
                    catch_describe objectTargetDoesNotExist (name this1)
                      (describe_target C scr (log_getting target this1))
                  else Inr this1) = Inr this'"
    by (rule and_then_Inr)
  have "if media (sourceOrg scr) = Org
     then describe_source C scr (log_getting source this) = Inr this1
     else this1 = this"
    using s by (auto dest: catch_describe_Inr split: if_splits)
  moreover have "if media (targetOrg scr) = Org
     then describe_target C scr (log_getting target this1) = Inr this'
     else this' = this1"
    using t by (auto dest: catch_describe_Inr split: if_splits)
  ultimately show ?thesis by (rule that)
qed

lemma media_cases: "media org \<noteq> Org \<Longrightarrow> media org = File"
  by (cases "media org") simp_all

lemma catch_describe_Inr_eq [simp]: "catch_describe key nm (Inr v) = Inr v"
  by (simp add: catch_describe_def)

lemma describe_source_name:
  "describe_source C scr this = Inr this' \<Longrightarrow> name this' = name this"
  using describe_source_excluded by blast

subsection \<open>Facts about sequences of lifecycle operations\<close>

lemma lifecycle_step_keeps:
  assumes "lifecycle_step C step this = Inr this'" and "isInitialized this"
    and "keeps_field C (excludedFields this) f step"
    and "count_list (fieldsInQuery this) f = 1"
  shows "isInitialized this' \<and> excludedFields this' = excludedFields this
    \<and> externalId this' = externalId this \<and> count_list (fieldsInQuery this') f = 1"
proof (cases step)
  case (Setup scr)
  with assms(1,2) have "this' = this"
    by (simp add: ScriptObject_setup_def)
  with assms show ?thesis by simp
next
  case (Expansion describe)
  with assms(1) have a: "addOrRemmoveFields C describe this = Inr this'" by simp
  from assms(4) have "f \<in> set (fieldsInQuery this)"
    using count_list_0_iff [of "fieldsInQuery this" f] by auto
  moreover from assms(3) Expansion have "f \<notin> set (excludedFields this)" by simp
  ultimately have "count_list (fieldsInQuery this') f = count_list (fieldsInQuery this) f"
    by (rule addOrRemmoveFields_count [OF a])
  with assms(2,4) addOrRemmoveFields_keeps [OF a] show ?thesis
    by (simp add: isInitialized_def)
next
  case (Validation describe isSource)
  with assms(1) have v: "validateFields C describe isSource this = Inr this'" by simp
  from assms(3) Validation have "isComplexOr__rField C f \<or> fieldsMap_has describe f" by simp
  then have "count_list (fieldsInQuery this') f = count_list (fieldsInQuery this) f"
    by (rule validateFields_count [OF v])
  with assms(2,4) validateFields_keeps [OF v] show ?thesis
    by (simp add: isInitialized_def)
qed

lemma lifecycle_step_externalId:
  assumes "lifecycle_step C step this = Inr this'" and "isInitialized this"
  shows "isInitialized this' \<and> externalId this' = externalId this"
proof (cases step)
  case (Setup scr)
  with assms have "this' = this"
    by (simp add: ScriptObject_setup_def)
  with assms show ?thesis by simp
next
  case (Expansion describe)
  with assms(1) have a: "addOrRemmoveFields C describe this = Inr this'" by simp
  with assms(2) addOrRemmoveFields_keeps [OF a] show ?thesis
    by (simp add: isInitialized_def)
next
  case (Validation describe isSource)
  with assms(1) have v: "validateFields C describe isSource this = Inr this'" by simp
  with assms(2) validateFields_keeps [OF v] show ?thesis
    by (simp add: isInitialized_def)
qed

lemma run_lifecycle_externalId:
  assumes "run_lifecycle C steps this = Inr this'" and "isInitialized this"
  shows "externalId this' = externalId this"
  using assms
proof (induction steps arbitrary: this)
  case Nil
  then show ?case by simp
next
  case (Cons step steps)
  from Cons.prems(1) obtain this1 where
    1: "lifecycle_step C step this = Inr this1"
    and 2: "run_lifecycle C steps this1 = Inr this'"
    by (auto elim: and_then_Inr)
  from lifecycle_step_externalId [OF 1 Cons.prems(2)] Cons.IH [OF 2] show ?case by simp
qed

lemma run_lifecycle_keeps:
  assumes "run_lifecycle C steps this = Inr this'" and "isInitialized this"
    and "list_all (keeps_field C (excludedFields this) f) steps"
    and "count_list (fieldsInQuery this) f = 1"
  shows "externalId this' = externalId this \<and> count_list (fieldsInQuery this') f = 1"
  using assms
proof (induction steps arbitrary: this)
  case Nil
  then show ?case by simp
next
  case (Cons step steps)
  from Cons.prems(1) obtain this1 where
    1: "lifecycle_step C step this = Inr this1"
    and 2: "run_lifecycle C steps this1 = Inr this'"
    by (auto elim: and_then_Inr)
  from Cons.prems(3) have k: "keeps_field C (excludedFields this) f step"
    and ks: "list_all (keeps_field C (excludedFields this) f) steps"
    by simp_all
  note s = lifecycle_step_keeps [OF 1 Cons.prems(2) k Cons.prems(4)]
  from s ks have "list_all (keeps_field C (excludedFields this1) f) steps" by simp
  from Cons.IH [OF 2 _ this] s show ?case by simp
qed

subsection \<open>The claims\<close>




text \<open>
  Claim C2. For the operation \<^verbatim>\<open>Delete\<close> the field list of the parsed query is not the
  record id alone: the external id and the original external id are added as for every
  operation. The field \<^verbatim>\<open>IsPersonAccount\<close> aside, the list is the record id, the external id
  (in its complex form when it is complex) and the complex form of the original external
  id, each kept once; it is exactly this list when person accounts are not enabled. The
  field list of the delete query is the record id alone.
\<close>

theorem setup_Delete_fields:
  assumes "\<not> isInitialized this" and "getOperation (operation this) = OpMember Delete"
    and "ScriptObject_setup C scr this = Inr this'"
  shows "filter (\<lambda>f. f \<noteq> ''IsPersonAccount'') (fieldsInQuery this') =
      filter (\<lambda>f. f \<noteq> ''IsPersonAccount'')
        (distinctArray (\<lambda>x. x)
           [''Id'',
            if isComplexOr__rField C (externalId this) then getComplexField C (externalId this)
            else externalId this,
            getComplexField C (externalId this)])
    \<and> (\<not> isPersonAccountEnabled scr \<longrightarrow>
        fieldsInQuery this' =
          distinctArray (\<lambda>x. x)
            [''Id'',
             if isComplexOr__rField C (externalId this) then getComplexField C (externalId this)
             else externalId this,
             getComplexField C (externalId this)])
    \<and> map_option (\<lambda>q. map field (Query.fields q)) (parsedDeleteQuery this') = Some [''Id'']"
proof -
  let ?ext = "if isComplexOr__rField C (externalId this) then getComplexField C (externalId this)
            else externalId this"
  let ?orig = "getComplexField C (externalId this)"
  let ?pa = "if isPersonAccountEnabled scr \<and> (name this = ''Account'' \<or> name this = ''Contact'')
            then [''IsPersonAccount''] else []"
  have f: "fieldsInQuery this' = distinctArray (\<lambda>x. x) ([''Id'', ?ext, ?orig] @ ?pa)"
    and q: "map_option (\<lambda>q. map field (Query.fields q)) (parsedDeleteQuery this') = Some [''Id'']"
    using setup_Delete_fieldsInQuery [OF assms] by simp_all
  have "filter (\<lambda>f. f \<noteq> ''IsPersonAccount'') ([''Id'', ?ext, ?orig] @ ?pa)
      = filter (\<lambda>f. f \<noteq> ''IsPersonAccount'') [''Id'', ?ext, ?orig]"
    by simp
  then have 1: "filter (\<lambda>f. f \<noteq> ''IsPersonAccount'') (fieldsInQuery this') =
      filter (\<lambda>f. f \<noteq> ''IsPersonAccount'') (distinctArray (\<lambda>x. x) [''Id'', ?ext, ?orig])"
    unfolding f filter_distinctArray by (simp only:)
  have 2: "\<not> isPersonAccountEnabled scr \<longrightarrow>
      fieldsInQuery this' = distinctArray (\<lambda>x. x) [''Id'', ?ext, ?orig]"
    unfolding f by (simp del: distinctArray.simps)
  from 1 2 q show ?thesis by (simp only: simp_thms)
qed

theorem setup_Delete_fields_witness:
  "\<not> isInitialized (sample_object ''SELECT Id, Phone, Name FROM Account'' (OpString ''Delete'') [])
   \<and> getOperation (operation (sample_object ''SELECT Id, Phone, Name FROM Account'' (OpString ''Delete'') []))
       = OpMember Delete
   \<and> (\<exists>this'. ScriptObject_setup sample_collaborators (sample_script Org Org)
          (sample_object ''SELECT Id, Phone, Name FROM Account'' (OpString ''Delete'') []) = Inr this'
        \<and> fieldsInQuery this' = [''Id'', ''Name'']
        \<and> map_option (\<lambda>q. map field (Query.fields q)) (parsedDeleteQuery this') = Some [''Id''])"
proof -
  let ?obj = "sample_object ''SELECT Id, Phone, Name FROM Account'' (OpString ''Delete'') []"
  have i: "\<not> isInitialized ?obj"
    by (simp add: isInitialized_def sample_object_def)
  have o: "getOperation (operation ?obj) = OpMember Delete"
    by (simp add: getOperation_def OPERATION_index_def sample_object_def)
  obtain this' where e: "ScriptObject_setup sample_collaborators (sample_script Org Org) ?obj = Inr this'"
    by (simp add: setup_simps sample_simps)
  have "fieldsInQuery this' = [''Id'', ''Name'']
    \<and> map_option (\<lambda>q. map field (Query.fields q)) (parsedDeleteQuery this') = Some [''Id'']"
    using setup_Delete_fields [OF i o e]
    by (simp add: sample_collaborators_def sample_object_def sample_script_def)
  with i o e show ?thesis by simp
qed

theorem setup_Delete_fields_counterexample:
  "getOperation (operation (sample_object ''SELECT Id, Phone, Name FROM Account'' (OpString ''Delete'') []))
     = OpMember Delete
   \<and> map_sum id fieldsInQuery
       (ScriptObject_setup sample_collaborators (sample_script Org Org)
          (sample_object ''SELECT Id, Phone, Name FROM Account'' (OpString ''Delete'') []))
     = Inr [''Id'', ''Name'']"
  by (simp add: setup_simps sample_simps)

text \<open>
  Claim C3. A field that is not complex and that the description lacks is removed from
  the query with a warning for the side, also when it is the external id: the test for
  the external id reads the property \<^verbatim>\<open>name\<close> of a string and never holds, so no error is
  raised for it. Here the external id \<^verbatim>\<open>Name\<close> is in the query after \<^verbatim>\<open>setup\<close>, the sample
  description lacks it, and the validation on the source side returns with \<^verbatim>\<open>Name\<close> removed
  and one warning logged.
\<close>

theorem validateFields_missing_externalId:
  "map_sum id (\<lambda>this. (externalId this, fieldsInQuery this))
     (ScriptObject_setup sample_collaborators (sample_script Org Org)
        (sample_object ''SELECT Id, Phone, Name FROM Account'' (OpString ''Upsert'') []))
     = Inr (''Name'', [''Id'', ''Phone'', ''Name''])
   \<and> \<not> isComplexOr__rField sample_collaborators ''Name''
   \<and> \<not> fieldsMap_has sample_describe ''Name''
   \<and> map_sum id (\<lambda>this. (fieldsInQuery this, map_option logger (script this)))
       (validateFields sample_collaborators sample_describe True
          (sample_configured ''SELECT Id, Phone, Name FROM Account'' (OpString ''Upsert'') []
             (sample_script Org Org)))
     = Inr ([''Id'', ''Phone''],
            Some [(Warn, (fieldSourceDoesNtoExist, [Text ''Account'', Text ''Name'']))])"
  by (simp add: eval_simps)

text \<open>
  Claim C4. After \<^verbatim>\<open>setup\<close> and any sequence of further lifecycle operations that completes,
  the record id and the field added for the external id are each in the field list
  exactly once, provided no expansion runs while the field is among the excluded fields
  and every validation is against a description that has the field, or the field is
  complex. Without the proviso the claim fails: an excluded record id is removed by
  the expansion.
\<close>

theorem lifecycle_mandatory_fields_once:
  assumes "\<not> isInitialized this"
    and "run_lifecycle C (Setup scr # steps) this = Inr this'"
    and "f = ''Id'' \<or> f = externalId_field C this'"
    and "list_all (keeps_field C (excludedFields this) f) steps"
  shows "count_list (fieldsInQuery this') f = 1"
proof -
  from assms(2) obtain this1 where
    1: "ScriptObject_setup C scr this = Inr this1"
    and 2: "run_lifecycle C steps this1 = Inr this'"
    by (auto elim: and_then_Inr)
  have i: "isInitialized this1" using 1 by (rule setup_isInitialized)
  have x: "excludedFields this1 = excludedFields this"
    using assms(1) 1 by (rule setup_excludedFields)
  from assms(4) x have k: "list_all (keeps_field C (excludedFields this1) f) steps" by simp
  have "externalId this' = externalId this1"
    using 2 i by (rule run_lifecycle_externalId)
  then have "externalId_field C this' = externalId_field C this1"
    by (simp add: externalId_field_def hasComplexExternalId_def complexExternalId_def)
  with assms(3) have "f = ''Id'' \<or> f = externalId_field C this1" by simp
  with assms(1) 1 have "count_list (fieldsInQuery this1) f = 1"
    by (rule setup_mandatory_once)
  with run_lifecycle_keeps [OF 2 i k] show ?thesis by simp
qed

theorem lifecycle_mandatory_fields_once_witness:
  "\<not> isInitialized (sample_object ''SELECT Phone, creatable_true FROM Account'' (OpString ''Upsert'') [''Fax''])
   \<and> list_all (keeps_field sample_collaborators
        (excludedFields (sample_object ''SELECT Phone, creatable_true FROM Account'' (OpString ''Upsert'') [''Fax'']))
        ''Id'')
        [Expansion sample_describe, Validation sample_describe True,
         Setup (sample_script File File), Expansion sample_describe]
   \<and> (\<exists>this'. run_lifecycle sample_collaborators
          [Setup (sample_script Org Org), Expansion sample_describe, Validation sample_describe True,
           Setup (sample_script File File), Expansion sample_describe]
          (sample_object ''SELECT Phone, creatable_true FROM Account'' (OpString ''Upsert'') [''Fax''])
          = Inr this'
        \<and> count_list (fieldsInQuery this') ''Id'' = 1)"
proof -
  let ?obj = "sample_object ''SELECT Phone, creatable_true FROM Account'' (OpString ''Upsert'') [''Fax'']"
  let ?steps = "[Expansion sample_describe, Validation sample_describe True,
         Setup (sample_script File File), Expansion sample_describe]"
  have i: "\<not> isInitialized ?obj"
    by (simp add: isInitialized_def sample_object_def)
  have k: "list_all (keeps_field sample_collaborators (excludedFields ?obj) ''Id'') ?steps"
    by (simp add: sample_object_def sample_collaborators_def sample_describe_def fieldsMap_has_def)
  obtain this' where e: "run_lifecycle sample_collaborators (Setup (sample_script Org Org) # ?steps) ?obj = Inr this'"
    by (simp add: eval_simps)
  from lifecycle_mandatory_fields_once [OF i e _ k] i k e show ?thesis by simp
qed

theorem lifecycle_mandatory_fields_once_counterexample:
  "map_sum id fieldsInQuery
     (run_lifecycle sample_collaborators [Setup (sample_script Org Org), Expansion sample_describe]
        (sample_object ''SELECT Id, Name FROM Account'' (OpString ''Upsert'') [''Id'']))
     = Inr [''Name'']"
  by (simp add: eval_simps)

text \<open>
  Claim C5. When \<^verbatim>\<open>setup\<close> runs on an object whose normalized operation is \<^verbatim>\<open>Insert\<close> and
  completes, the external id is \<^verbatim>\<open>Id\<close>, whatever it was before.
\<close>

theorem setup_Insert_externalId:
  assumes "\<not> isInitialized this" and "getOperation (operation this) = OpMember Insert"
    and "ScriptObject_setup C scr this = Inr this'"
  shows "externalId this' = ''Id''"
proof -
  from assms(1,3) obtain this2 parsed where
    p: "ScriptObject_parseQuery C (setup_init scr this) (query (setup_init scr this)) = Inr (this2, parsed)"
    and d: "setup_deleteQuery C scr (setup_update C scr this2 parsed) = Inr this'"
    by (rule setup_Inr)
  have "externalId this' = externalId this2"
    using setup_deleteQuery_keeps [OF d] by (simp add: setup_update_fields)
  also have "\<dots> = externalId (setup_init scr this)"
    using ScriptObject_parseQuery_keeps(1) [OF p] .
  also have "\<dots> = ''Id''"
    using assms(2) by (rule setup_init_externalId_Insert)
  finally show ?thesis .
qed

theorem setup_Insert_externalId_witness:
  "\<not> isInitialized (sample_object ''SELECT Name FROM Account'' (OpString ''Insert'') [])
   \<and> getOperation (operation (sample_object ''SELECT Name FROM Account'' (OpString ''Insert'') []))
       = OpMember Insert
   \<and> (\<exists>this'. ScriptObject_setup sample_collaborators (sample_script Org Org)
          (sample_object ''SELECT Name FROM Account'' (OpString ''Insert'') []) = Inr this'
        \<and> externalId this' = ''Id'')"
proof -
  let ?obj = "sample_object ''SELECT Name FROM Account'' (OpString ''Insert'') []"
  have i: "\<not> isInitialized ?obj"
    by (simp add: isInitialized_def sample_object_def)
  have o: "getOperation (operation ?obj) = OpMember Insert"
    by (simp add: getOperation_def OPERATION_index_def sample_object_def)
  obtain this' where e: "ScriptObject_setup sample_collaborators (sample_script Org Org) ?obj = Inr this'"
    by (simp add: setup_simps sample_simps)
  from setup_Insert_externalId [OF i o e] i o e show ?thesis by simp
qed

text \<open>
  Claim C6. Expanding the multiselect pattern twice against the same description gives
  what expanding once gives: the same object, so the same field list, and the same
  exception when the first expansion raises one.
\<close>

theorem addOrRemmoveFields_idempotent:
  "and_then (addOrRemmoveFields C describe this) (addOrRemmoveFields C describe)
     = addOrRemmoveFields C describe this"
proof (cases "addOrRemmoveFields C describe this")
  case (Inl ex)
  then show ?thesis by (simp add: and_then_def)
next
  case (Inr this')
  then show ?thesis using addOrRemmoveFields_twice [OF Inr] by (simp add: and_then_def)
qed

theorem addOrRemmoveFields_idempotent_witness:
  "map_sum id fieldsInQuery
     (and_then
        (addOrRemmoveFields sample_collaborators sample_describe
           (sample_configured ''SELECT Phone, creatable_true FROM Account'' (OpString ''Upsert'')
              [''Phone''] (sample_script Org Org)))
        (addOrRemmoveFields sample_collaborators sample_describe))
     = Inr [''Id'', ''Name'', ''Fax'']"
proof -
  let ?obj = "sample_configured ''SELECT Phone, creatable_true FROM Account'' (OpString ''Upsert'')
              [''Phone''] (sample_script Org Org)"
  have "map_sum id fieldsInQuery (addOrRemmoveFields sample_collaborators sample_describe ?obj)
      = Inr [''Id'', ''Name'', ''Fax'']"
    by (simp add: eval_simps)
  then show ?thesis
    using addOrRemmoveFields_idempotent [of sample_collaborators sample_describe ?obj]
    by simp
qed

text \<open>
  Claim C7. When \<^verbatim>\<open>describeAsync\<close> runs on an object that is not yet described, with the
  source or the target an org, and completes, the excluded fields are unchanged and none
  of them is in the field list of the parsed query.
\<close>

theorem describeAsync_excluded_fields_absent:
  assumes "\<not> isDescribed this" and "script this = Some scr"
    and "media (sourceOrg scr) = Org \<or> media (targetOrg scr) = Org"
    and "describeAsync C this = Inr this'"
  shows "excludedFields this' = excludedFields this
    \<and> set (fieldsInQuery this') \<inter> set (excludedFields this') = {}"
proof -
  from assms(1,2,4) obtain this1 where
    s: "if media (sourceOrg scr) = Org
        then describe_source C scr (log_getting source this) = Inr this1
        else this1 = this"
    and t: "if media (targetOrg scr) = Org
        then describe_target C scr (log_getting target this1) = Inr this'
        else this' = this1"
    by (rule describeAsync_Inr)
  show ?thesis
  proof (cases "media (sourceOrg scr) = Org")
    case True
    with s have "describe_source C scr (log_getting source this) = Inr this1" by simp
    from describe_source_excluded [OF this]
    have 1: "excludedFields this1 = excludedFields this"
      "set (fieldsInQuery this1) \<inter> set (excludedFields this1) = {}"
      by simp_all
    show ?thesis
    proof (cases "media (targetOrg scr) = Org")
      case True
      with t have "describe_target C scr (log_getting target this1) = Inr this'" by simp
      from describe_target_excluded [OF this] 1 show ?thesis by simp
    next
      case False
      with t 1 show ?thesis by simp
    qed
  next
    case False
    then have f: "media (sourceOrg scr) = File" by (rule media_cases)
    from False s have 1: "this1 = this" by simp
    from False assms(3) have "media (targetOrg scr) = Org" by simp
    with t 1 have "describe_target C scr (log_getting target this) = Inr this'" by simp
    from describe_target_excluded [OF this] f show ?thesis by simp
  qed
qed

theorem describeAsync_excluded_fields_absent_witness:
  "\<not> isDescribed (sample_configured ''SELECT Phone, creatable_true FROM Account''
        (OpString ''Upsert'') [''Phone''] (sample_script Org Org))
   \<and> (\<exists>this'. describeAsync sample_collaborators
          (sample_configured ''SELECT Phone, creatable_true FROM Account''
             (OpString ''Upsert'') [''Phone''] (sample_script Org Org)) = Inr this'
        \<and> sourceSObjectDescribe this' = Some sample_describe
        \<and> targetSObjectDescribe this' = Some sample_target_describe
        \<and> fieldsInQuery this' = [''Id'']
        \<and> excludedFields this' = [''Phone'']
        \<and> set (fieldsInQuery this') \<inter> set (excludedFields this') = {})"
proof -
  let ?obj = "sample_configured ''SELECT Phone, creatable_true FROM Account''
        (OpString ''Upsert'') [''Phone''] (sample_script Org Org)"
  let ?scr = "(sample_script Org Org)\<lparr>objectsMap := [''Account'']\<rparr>"
  have d: "\<not> isDescribed ?obj"
    by (simp add: eval_simps)
  have s: "script ?obj = Some ?scr"
    by (simp add: eval_simps)
  have m: "media (sourceOrg ?scr) = Org \<or> media (targetOrg ?scr) = Org"
    by (simp add: sample_script_def)
  obtain this' where e: "describeAsync sample_collaborators ?obj = Inr this'"
    and t: "sourceSObjectDescribe this' = Some sample_describe"
      "targetSObjectDescribe this' = Some sample_target_describe"
      "fieldsInQuery this' = [''Id'']"
    by (simp add: eval_simps)
  have x: "excludedFields ?obj = [''Phone'']"
    by (simp add: eval_simps)
  from describeAsync_excluded_fields_absent [OF d s m e] d e t x show ?thesis by auto
qed

text \<open>
  Claim C8. An exception raised inside the block of a side leaves \<^verbatim>\<open>describeAsync\<close> as it
  is when it is a \<^verbatim>\<open>CommandInitializationError\<close>, and otherwise as an \<^verbatim>\<open>OrgMetadataError\<close>
  whose message is that of the side, source or target, with the name of the object.
\<close>

theorem describeAsync_error_wrapping:
  assumes "\<not> isDescribed this" and "script this = Some scr"
  shows "(media (sourceOrg scr) = Org
          \<and> describe_source C scr (log_getting source this) = Inl ex
        \<longrightarrow> describeAsync C this =
            Inl (case ex of CommandInitializationError m \<Rightarrow> ex
                 | _ \<Rightarrow> OrgMetadataError (objectSourceDoesNotExist, [Text (name this)])))
    \<and> ((if media (sourceOrg scr) = Org
         then describe_source C scr (log_getting source this) = Inr this1
         else this1 = this)
        \<and> media (targetOrg scr) = Org
        \<and> describe_target C scr (log_getting target this1) = Inl ex
        \<longrightarrow> describeAsync C this =
            Inl (case ex of CommandInitializationError m \<Rightarrow> ex
                 | _ \<Rightarrow> OrgMetadataError (objectTargetDoesNotExist, [Text (name this)])))"
proof (intro conjI impI)
  assume "media (sourceOrg scr) = Org \<and> describe_source C scr (log_getting source this) = Inl ex"
  with assms show "describeAsync C this =
      Inl (case ex of CommandInitializationError m \<Rightarrow> ex
           | _ \<Rightarrow> OrgMetadataError (objectSourceDoesNotExist, [Text (name this)]))"
    by (simp add: describeAsync_def catch_describe_Inl and_then_def)
next
  assume a: "(if media (sourceOrg scr) = Org
         then describe_source C scr (log_getting source this) = Inr this1
         else this1 = this)
        \<and> media (targetOrg scr) = Org
        \<and> describe_target C scr (log_getting target this1) = Inl ex"
  then have n: "name this1 = name this"
    using describe_source_name [of C scr "log_getting source this" this1]
    by (auto split: if_splits)
  have s: "(if media (sourceOrg scr) = Org then
              catch_describe objectSourceDoesNotExist (name this)
                (describe_source C scr (log_getting source this))
            else Inr this) = Inr this1"
    using a by (auto split: if_splits)
  show "describeAsync C this =
      Inl (case ex of CommandInitializationError m \<Rightarrow> ex
           | _ \<Rightarrow> OrgMetadataError (objectTargetDoesNotExist, [Text (name this)]))"
    using assms a unfolding describeAsync_def
    by (simp add: s and_then_def catch_describe_Inl n)
qed

theorem describeAsync_error_wrapping_witness:
  "describeAsync (sample_collaborators\<lparr>describeSObjectAsync := (\<lambda>org nm. Inl (OtherError ''not found''))\<rparr>)
     (sample_configured ''SELECT Name FROM Account'' (OpString ''Upsert'') [] (sample_script Org Org))
     = Inl (OrgMetadataError (objectSourceDoesNotExist, [Text ''Account'']))
   \<and> describeAsync
       (sample_collaborators\<lparr>describeSObjectAsync :=
          (\<lambda>org nm. if ScriptOrg.name org = ''target org'' then Inl (OtherError ''not found'')
                     else Inr sample_describe)\<rparr>)
       (sample_configured ''SELECT Name FROM Account'' (OpString ''Upsert'') [] (sample_script Org Org))
     = Inl (OrgMetadataError (objectTargetDoesNotExist, [Text ''Account'']))
   \<and> describeAsync sample_collaborators
     (sample_configured ''SELECT Name FROM Account'' (OpString ''Upsert'') [''Id'', ''Name'']
        (sample_script File Org))
     = Inl (CommandInitializationError (missingFieldsToProcess, [Text ''Account'']))"
proof -
  let ?C = "sample_collaborators\<lparr>describeSObjectAsync := (\<lambda>org nm. Inl (OtherError ''not found''))\<rparr>"
  let ?T = "sample_collaborators\<lparr>describeSObjectAsync :=
          (\<lambda>org nm. if ScriptOrg.name org = ''target org'' then Inl (OtherError ''not found'')
                     else Inr sample_describe)\<rparr>"
  let ?obj1 = "sample_configured ''SELECT Name FROM Account'' (OpString ''Upsert'') [] (sample_script Org Org)"
  let ?scr1 = "(sample_script Org Org)\<lparr>objectsMap := [''Account'']\<rparr>"
  let ?obj2 = "sample_configured ''SELECT Name FROM Account'' (OpString ''Upsert'') [''Id'', ''Name'']
        (sample_script File Org)"
  let ?scr2 = "(sample_script File Org)\<lparr>objectsMap := [''Account'']\<rparr>"
  have d1: "\<not> isDescribed ?obj1" and s1: "script ?obj1 = Some ?scr1"
    by (simp_all add: eval_simps)
  have n1: "name ?obj1 = ''Account''"
    by (simp add: eval_simps)
  have f1: "media (sourceOrg ?scr1) = Org
      \<and> describe_source ?C ?scr1 (log_getting source ?obj1) = Inl (OtherError ''not found'')"
    by (simp add: sample_script_def describe_source_def and_then_def)
  have 1: "describeAsync ?C ?obj1 = Inl (OrgMetadataError (objectSourceDoesNotExist, [Text ''Account'']))"
    using describeAsync_error_wrapping [OF d1 s1, where C = ?C and ex = "OtherError ''not found''"]
      f1 n1 by simp
  obtain this1 where g: "describe_source ?T ?scr1 (log_getting source ?obj1) = Inr this1"
    by (simp add: eval_simps)
  have h: "describe_target ?T ?scr1 (log_getting target this1) = Inl (OtherError ''not found'')"
    by (simp add: sample_script_def describe_target_def and_then_def)
  have f3: "(if media (sourceOrg ?scr1) = Org
         then describe_source ?T ?scr1 (log_getting source ?obj1) = Inr this1
         else this1 = ?obj1)
      \<and> media (targetOrg ?scr1) = Org
      \<and> describe_target ?T ?scr1 (log_getting target this1) = Inl (OtherError ''not found'')"
    using g h by (simp add: sample_script_def)
  have 3: "describeAsync ?T ?obj1 = Inl (OrgMetadataError (objectTargetDoesNotExist, [Text ''Account'']))"
    using describeAsync_error_wrapping [OF d1 s1, where C = ?T and ex = "OtherError ''not found''"
        and ?this1.0 = this1] f3 n1
    by simp
  have d2: "\<not> isDescribed ?obj2" and s2: "script ?obj2 = Some ?scr2"
    by (simp_all add: eval_simps)
  have f2: "(if media (sourceOrg ?scr2) = Org
         then describe_source sample_collaborators ?scr2 (log_getting source ?obj2) = Inr ?obj2
         else ?obj2 = ?obj2)
      \<and> media (targetOrg ?scr2) = Org
      \<and> describe_target sample_collaborators ?scr2 (log_getting target ?obj2)
         = Inl (CommandInitializationError (missingFieldsToProcess, [Text ''Account'']))"
    by (simp add: eval_simps)
  have 2: "describeAsync sample_collaborators ?obj2
      = Inl (CommandInitializationError (missingFieldsToProcess, [Text ''Account'']))"
    using describeAsync_error_wrapping [OF d2 s2, where C = sample_collaborators
        and ex = "CommandInitializationError (missingFieldsToProcess, [Text ''Account''])"
        and ?this1.0 = ?obj2] f2
    by simp
  from 1 3 2 show ?thesis by simp
qed

text \<open>
  Claim C9. Once \<^verbatim>\<open>setup\<close> has completed the object is initialized (it holds the script),
  and a second call, with any script and collaborators, returns the object unchanged.
\<close>

theorem setup_second_call_no_op:
  assumes "ScriptObject_setup C scr this = Inr this'"
  shows "isInitialized this' \<and> ScriptObject_setup C' scr' this' = Inr this'"
  using setup_isInitialized [OF assms] by (simp add: ScriptObject_setup_def)

theorem setup_second_call_no_op_witness:
  "\<exists>this'. ScriptObject_setup sample_collaborators (sample_script Org Org)
       (sample_object ''SELECT Name FROM Account'' (OpString ''Insert'') []) = Inr this'
     \<and> isInitialized this'
     \<and> ScriptObject_setup sample_collaborators (sample_script File Org) this' = Inr this'"
proof -
  let ?obj = "sample_object ''SELECT Name FROM Account'' (OpString ''Insert'') []"
  obtain this' where e: "ScriptObject_setup sample_collaborators (sample_script Org Org) ?obj = Inr this'"
    by (simp add: setup_simps sample_simps)
  from setup_second_call_no_op [OF e, of sample_collaborators "sample_script File Org"] e
  show ?thesis by simp
qed

text \<open>
  Claim C10. When the source and the target are both files, \<^verbatim>\<open>describeAsync\<close> returns the
  object unchanged (nothing is fetched or logged, no exception is raised), any number of
  times; an object that was not described stays so, and its map of the fields in the
  query is empty.
\<close>

theorem describeAsync_files_no_op:
  assumes "script this = Some scr" and "media (sourceOrg scr) = File"
    and "media (targetOrg scr) = File"
  shows "describeAsync C this = Inr this
    \<and> ((\<lambda>r. and_then r (describeAsync C)) ^^ n) (Inr this) = Inr this
    \<and> (\<not> isDescribed this \<longrightarrow> fieldsInQueryMap C this = [])"
proof -
  have 1: "describeAsync C this = Inr this"
    using assms by (simp add: describeAsync_def and_then_def)
  have 2: "((\<lambda>r. and_then r (describeAsync C)) ^^ n) (Inr this) = Inr this"
    by (induction n) (simp_all add: 1 and_then_def)
  have 3: "\<not> isDescribed this \<longrightarrow> fieldsInQueryMap C this = []"
    by (simp add: isDescribed_def fieldsInQueryMap_def)
  from 1 2 3 show ?thesis by simp
qed

theorem describeAsync_files_no_op_witness:
  "\<not> isDescribed (sample_configured ''SELECT Name FROM Account'' (OpString ''Upsert'') []
        (sample_script File File))
   \<and> describeAsync sample_collaborators
       (sample_configured ''SELECT Name FROM Account'' (OpString ''Upsert'') []
          (sample_script File File))
     = Inr (sample_configured ''SELECT Name FROM Account'' (OpString ''Upsert'') []
          (sample_script File File))
   \<and> ((\<lambda>r. and_then r (describeAsync sample_collaborators)) ^^ 3)
       (Inr (sample_configured ''SELECT Name FROM Account'' (OpString ''Upsert'') []
          (sample_script File File)))
     = Inr (sample_configured ''SELECT Name FROM Account'' (OpString ''Upsert'') []
          (sample_script File File))
   \<and> fieldsInQueryMap sample_collaborators
       (sample_configured ''SELECT Name FROM Account'' (OpString ''Upsert'') []
          (sample_script File File)) = []"
proof -
  let ?obj = "sample_configured ''SELECT Name FROM Account'' (OpString ''Upsert'') []
        (sample_script File File)"
  let ?scr = "(sample_script File File)\<lparr>objectsMap := [''Account'']\<rparr>"
  have d: "\<not> isDescribed ?obj" and s: "script ?obj = Some ?scr"
    by (simp_all add: eval_simps)
  have m: "media (sourceOrg ?scr) = File" "media (targetOrg ?scr) = File"
    by (simp_all add: sample_script_def)
  from describeAsync_files_no_op [OF s m, of sample_collaborators 3] d show ?thesis
    by simp
qed

end
